theory Spec2Isabelle
  imports Main
begin

section \<open>JavaScript strings and the string built-ins the code uses\<close>

text \<open>
  A JavaScript string is a sequence of UTF-16 code units; the model keeps each code unit
  as its number, so that the narrow no-break space U+202F of the attribution line and the
  Unicode white space that \<^verbatim>\<open>trim\<close> and \<^verbatim>\<open>\s\<close> strip are what they are in the
  program. \<open>js\<close> writes an ASCII literal.
\<close>

type_synonym jsstring = "nat list"

definition js :: "string \<Rightarrow> jsstring" where
  "js s = map of_char s"

definition nl :: jsstring where
  "nl = [10]"

definition crlf :: jsstring where
  "crlf = [13, 10]"


text \<open>ECMAScript LineTerminator: LF, CR, U+2028, U+2029 (what \<^verbatim>\<open>.\<close> does not match).\<close>

definition isLineTerminator :: "nat \<Rightarrow> bool" where
  "isLineTerminator c = (c = 10 \<or> c = 13 \<or> c = 8232 \<or> c = 8233)"

text \<open>
  ECMAScript WhiteSpace and LineTerminator together: the set stripped by
  \<^verbatim>\<open>String.prototype.trim\<close> and matched by \<^verbatim>\<open>\s\<close>.
\<close>

definition isWhiteSpace :: "nat \<Rightarrow> bool" where
  "isWhiteSpace c =
     (c = 9 \<or> c = 10 \<or> c = 11 \<or> c = 12 \<or> c = 13 \<or> c = 32 \<or> c = 160 \<or> c = 5760
      \<or> (8192 \<le> c \<and> c \<le> 8202) \<or> c = 8232 \<or> c = 8233 \<or> c = 8239 \<or> c = 8287
      \<or> c = 12288 \<or> c = 65279)"

definition trim :: "jsstring \<Rightarrow> jsstring" where
  "trim s = rev (dropWhile isWhiteSpace (rev (dropWhile isWhiteSpace s)))"

text \<open>\<^verbatim>\<open>s.split(sep)\<close> for a one-unit separator: the empty string splits into one empty piece.\<close>

fun splitOn :: "nat \<Rightarrow> jsstring \<Rightarrow> jsstring list" where
  "splitOn sep [] = [[]]"
| "splitOn sep (c # cs) =
     (if c = sep then [] # splitOn sep cs
      else (case splitOn sep cs of [] \<Rightarrow> [[c]] | x # xs \<Rightarrow> (c # x) # xs))"

text \<open>\<^verbatim>\<open>xs.join(sep)\<close>.\<close>

fun joinWith :: "jsstring \<Rightarrow> jsstring list \<Rightarrow> jsstring" where
  "joinWith sep [] = []"
| "joinWith sep [x] = x"
| "joinWith sep (x # y # ys) = x @ sep @ joinWith sep (y # ys)"

text \<open>\<^verbatim>\<open>s.replace(/c/g, r)\<close> for a one-unit pattern.\<close>

definition replaceAll :: "nat \<Rightarrow> jsstring \<Rightarrow> jsstring \<Rightarrow> jsstring" where
  "replaceAll c r s = concat (map (\<lambda>x. if x = c then r else [x]) s)"

text \<open>Decimal rendering of a number, as a template literal or \<^verbatim>\<open>toString()\<close> gives it.\<close>

fun showNat :: "nat \<Rightarrow> jsstring" where
  "showNat n = (if n < 10 then [48 + n] else showNat (n div 10) @ [48 + n mod 10])"

declare showNat.simps [simp del]

definition showInt :: "int \<Rightarrow> jsstring" where
  "showInt i = (if i < 0 then js ''-'' @ showNat (nat (- i)) else showNat (nat i))"

text \<open>\<^verbatim>\<open>s.padStart(2, "0")\<close>.\<close>

definition padStart2 :: "jsstring \<Rightarrow> jsstring" where
  "padStart2 s = replicate (2 - length s) 48 @ s"

section \<open>The runtime: Node built-ins the code calls\<close>

text \<open>
  What \<^verbatim>\<open>new Date(date)\<close> answers to the six getters, in local time. \<open>None\<close> is an
  invalid date, whose getters all return NaN.
\<close>

record date_fields =
  getDay :: nat
  getMonth :: nat
  getDate :: nat
  getFullYear :: int
  getHours :: nat
  getMinutes :: nat

text \<open>
  The built-ins that are tables, clocks or the file system are taken from the runtime:
  Unicode lower-casing of a string holding a non-ASCII unit, date parsing, base64 and
  base64url coding, the \<^verbatim>\<open>path\<close> functions and \<^verbatim>\<open>fs.readFileSync\<close> (\<open>None\<close> where
  it throws).
\<close>

record runtime =
  unicodeLower :: "jsstring \<Rightarrow> jsstring"
  newDate :: "jsstring \<Rightarrow> date_fields option"
  base64urlDecode :: "jsstring \<Rightarrow> jsstring"
  toBase64url :: "jsstring \<Rightarrow> jsstring"
  toBase64 :: "nat list \<Rightarrow> jsstring"
  readFileSync :: "jsstring \<Rightarrow> nat list option"
  basename :: "jsstring \<Rightarrow> jsstring"
  extname :: "jsstring \<Rightarrow> jsstring"

definition asciiLower :: "nat \<Rightarrow> nat" where
  "asciiLower c = (if 65 \<le> c \<and> c \<le> 90 then c + 32 else c)"

text \<open>
  \<^verbatim>\<open>s.toLowerCase()\<close>: on an all-ASCII string it maps A-Z to a-z unit by unit; any other
  string is lower-cased by the runtime's Unicode tables.
\<close>

definition toLowerCase :: "runtime \<Rightarrow> jsstring \<Rightarrow> jsstring" where
  "toLowerCase rt s = (if list_all (\<lambda>c. c < 128) s then map asciiLower s else unicodeLower rt s)"

section \<open>reply-utils.ts\<close>

text \<open>
  \<^verbatim>\<open>parseEmailAddress\<close> matches \<^verbatim>\<open>/^(.+?)\s*<([^>]+)>$/\<close>. The lazy first group is tried
  at every length from one unit up, and stops at a line terminator; after it the greedy
  \<^verbatim>\<open>\s*\<close> takes the whole white-space run (a shorter run leaves a white-space unit where
  \<^verbatim>\<open><\<close> is needed); \<open>bracketTail\<close> is the rest: \<^verbatim>\<open><\<close>, a non-empty run free of
  \<^verbatim>\<open>>\<close>, one \<^verbatim>\<open>>\<close>, the end of the string.
\<close>

definition bracketTail :: "jsstring \<Rightarrow> jsstring option" where
  "bracketTail r =
     (case r of
        [] \<Rightarrow> None
      | c # r' \<Rightarrow>
          if c = 60 \<and> takeWhile (\<lambda>x. x \<noteq> 62) r' \<noteq> [] \<and> dropWhile (\<lambda>x. x \<noteq> 62) r' = [62]
          then Some (takeWhile (\<lambda>x. x \<noteq> 62) r') else None)"

fun nameEmailMatch :: "jsstring \<Rightarrow> jsstring \<Rightarrow> (jsstring \<times> jsstring) option" where
  "nameEmailMatch pre [] = None"
| "nameEmailMatch pre (c # cs) =
     (if isLineTerminator c then None
      else (case bracketTail (dropWhile isWhiteSpace cs) of
              Some b \<Rightarrow> Some (pre @ [c], b)
            | None \<Rightarrow> nameEmailMatch (pre @ [c]) cs))"

record address =
  addr_name :: jsstring
  addr_email :: jsstring

definition parseEmailAddress :: "jsstring \<Rightarrow> address" where
  "parseEmailAddress header =
     (let trimmed = trim header in
      case nameEmailMatch [] trimmed of
        Some (m1, m2) \<Rightarrow> \<lparr>addr_name = trim m1, addr_email = trim m2\<rparr>
      | None \<Rightarrow> \<lparr>addr_name = [], addr_email = trimmed\<rparr>)"

definition parseEmailList :: "jsstring \<Rightarrow> jsstring list" where
  "parseEmailList header =
     (if header = [] \<or> trim header = [] then []
      else filter (\<lambda>email. length email > 0)
             (map (\<lambda>entry. addr_email (parseEmailAddress (trim entry))) (splitOn 44 header)))"

text \<open>
  \<^verbatim>\<open>/^re:\s*/i.test(trimmed)\<close>: \<^verbatim>\<open>\s*\<close> also matches nothing, and without the
  \<^verbatim>\<open>u\<close> flag only the ASCII letters fold to R and E.
\<close>

definition hasRePrefix :: "jsstring \<Rightarrow> bool" where
  "hasRePrefix s =
     (case s of
        a # b # c # _ \<Rightarrow> (a = 114 \<or> a = 82) \<and> (b = 101 \<or> b = 69) \<and> c = 58
      | _ \<Rightarrow> False)"

definition formatReplySubject :: "jsstring \<Rightarrow> jsstring" where
  "formatReplySubject subject =
     (let trimmed = trim subject in
      if hasRePrefix trimmed then trimmed else js ''Re: '' @ trimmed)"

definition formatQuotedBody :: "jsstring \<Rightarrow> jsstring" where
  "formatQuotedBody body =
     (if body = [] then []
      else joinWith nl (map (\<lambda>line. js ''> '' @ line) (splitOn 10 body)))"

definition filterSelfFromRecipients :: "runtime \<Rightarrow> jsstring list \<Rightarrow> jsstring \<Rightarrow> jsstring list" where
  "filterSelfFromRecipients rt recipients selfEmail =
     (let selfLower = toLowerCase rt selfEmail in
      filter (\<lambda>email. toLowerCase rt email \<noteq> selfLower) recipients)"

definition days :: "jsstring list" where
  "days = map js [''Sun'', ''Mon'', ''Tue'', ''Wed'', ''Thu'', ''Fri'', ''Sat'']"

definition months :: "jsstring list" where
  "months = map js [''Jan'', ''Feb'', ''Mar'', ''Apr'', ''May'', ''Jun'',
                    ''Jul'', ''Aug'', ''Sep'', ''Oct'', ''Nov'', ''Dec'']"

text \<open>\<^verbatim>\<open>${xs[i]}\<close>: an index outside the array reads \<^verbatim>\<open>undefined\<close>.\<close>

definition elementText :: "jsstring list \<Rightarrow> nat \<Rightarrow> jsstring" where
  "elementText xs i = (if i < length xs then xs ! i else js ''undefined'')"

text \<open>
  The date and time of both attribution lines,
  \<^verbatim>\<open>On ${dayName}, ${month} ${day}, ${year} at ${timeStr}\<close>, which
  \<^verbatim>\<open>formatAttributionLine\<close> and \<^verbatim>\<open>formatHtmlAttributionLine\<close> compute by the same
  statements. On an invalid date every getter is NaN: the two table reads give
  \<^verbatim>\<open>undefined\<close>, \<^verbatim>\<open>NaN >= 12\<close> is false and \<^verbatim>\<open>NaN % 12\<close> is NaN.
\<close>

definition attributionDate :: "runtime \<Rightarrow> jsstring \<Rightarrow> jsstring" where
  "attributionDate rt date =
     (case newDate rt date of
        None \<Rightarrow> js ''On undefined, undefined NaN, NaN at NaN:NaN'' @ [8239] @ js ''AM''
      | Some parsed \<Rightarrow>
          (let dayName = elementText days (getDay parsed);
               month = elementText months (getMonth parsed);
               day = showNat (getDate parsed);
               year = showInt (getFullYear parsed);
               hours = getHours parsed;
               minutes = getMinutes parsed;
               ampm = (if hours \<ge> 12 then js ''PM'' else js ''AM'');
               hours = hours mod 12;
               hours = (if hours = 0 then 12 else hours);
               minuteStr = padStart2 (showNat minutes);
               timeStr = showNat hours @ js '':'' @ minuteStr @ [8239] @ ampm
           in js ''On '' @ dayName @ js '', '' @ month @ js '' '' @ day @ js '', '' @ year
              @ js '' at '' @ timeStr))"

definition formatAttributionLine :: "runtime \<Rightarrow> jsstring \<Rightarrow> jsstring \<Rightarrow> jsstring" where
  "formatAttributionLine rt date sender =
     (let parsedSender = parseEmailAddress sender;
          formattedSender =
            (if addr_name parsedSender \<noteq> [] then sender
             else js ''<'' @ addr_email parsedSender @ js ''>'')
      in attributionDate rt date @ js '' '' @ formattedSender @ js '' wrote:'')"

definition formatGmailQuote :: "runtime \<Rightarrow> jsstring \<Rightarrow> jsstring \<Rightarrow> jsstring \<Rightarrow> jsstring" where
  "formatGmailQuote rt date sender body =
     (let attributionLine = formatAttributionLine rt date sender;
          quotedBody = formatQuotedBody body
      in nl @ nl @ attributionLine @ nl @ nl @ quotedBody)"

definition escapeHtml :: "jsstring \<Rightarrow> jsstring" where
  "escapeHtml text =
     replaceAll 34 (js ''&quot;'')
       (replaceAll 62 (js ''&gt;'')
         (replaceAll 60 (js ''&lt;'')
           (replaceAll 38 (js ''&amp;'') text)))"

definition textToHtml :: "jsstring \<Rightarrow> jsstring" where
  "textToHtml text = replaceAll 10 (js ''<br>'') (escapeHtml text)"

definition formatHtmlAttributionLine :: "runtime \<Rightarrow> jsstring \<Rightarrow> jsstring \<Rightarrow> jsstring" where
  \<open>formatHtmlAttributionLine rt date sender =
     (let parsedSender = parseEmailAddress sender;
          emailLink = js ''<a href="mailto:'' @ escapeHtml (addr_email parsedSender) @ js ''">''
                      @ escapeHtml (addr_email parsedSender) @ js ''</a>'';
          formattedSender =
            (if addr_name parsedSender \<noteq> []
             then escapeHtml (addr_name parsedSender) @ js '' &lt;'' @ emailLink @ js ''&gt;''
             else js ''&lt;'' @ emailLink @ js ''&gt;'')
      in attributionDate rt date @ js '' '' @ formattedSender @ js '' wrote:'')\<close>

text \<open>The optional \<^verbatim>\<open>htmlBody\<close> is used when truthy; absent and empty are both \<open>[]\<close>.\<close>

definition formatHtmlGmailQuote ::
  "runtime \<Rightarrow> jsstring \<Rightarrow> jsstring \<Rightarrow> jsstring \<Rightarrow> jsstring \<Rightarrow> jsstring" where
  \<open>formatHtmlGmailQuote rt date sender body htmlBody =
     (let attributionLine = formatHtmlAttributionLine rt date sender;
          quotedContent = (if htmlBody \<noteq> [] then htmlBody else escapeHtml body)
      in js ''<div class="gmail_quote gmail_quote_container">''
         @ js ''<div dir="ltr" class="gmail_attr">'' @ attributionLine @ js ''<br></div>''
         @ js ''<blockquote class="gmail_quote" style="margin:0px 0px 0px 0.8ex;border-left:1px solid rgb(204,204,204);padding-left:1ex">''
         @ quotedContent @ js ''</blockquote></div>'')\<close>

definition formatHtmlReplyBody ::
  "runtime \<Rightarrow> jsstring \<Rightarrow> jsstring \<Rightarrow> jsstring \<Rightarrow> jsstring \<Rightarrow> jsstring \<Rightarrow> jsstring" where
  \<open>formatHtmlReplyBody rt replyText date sender originalBody originalHtmlBody =
     (let htmlReply = textToHtml replyText;
          htmlQuote = formatHtmlGmailQuote rt date sender originalBody originalHtmlBody
      in js ''<div dir="ltr"><div>'' @ htmlReply @ js ''</div><br>'' @ htmlQuote @ js ''</div>'')\<close>

section \<open>The remote mail service\<close>

text \<open>
  What the code reads of the API's answers. An optional string that the code only tests
  for truthiness or defaults with \<^verbatim>\<open>|| ""\<close> is the empty string when absent; so are an
  absent header list and an absent \<^verbatim>\<open>parts\<close> array, over which the loops run zero
  times as they do over an empty one. The payload itself may be absent.
\<close>

datatype part =
  Part (partMimeType: jsstring) (partHeaders: "(jsstring \<times> jsstring) list")
       (partBodyData: jsstring) (partParts: "part list")

record gmail_message =
  msgId :: jsstring
  msgThreadId :: jsstring
  msgPayload :: "part option"

text \<open>
  A thread as \<^verbatim>\<open>threads.get\<close> returns it: the ids of its messages in stored order, or
  no \<^verbatim>\<open>messages\<close> field. The code reads each id through a non-null assertion.
\<close>

record gmail_thread =
  threadMessages :: "jsstring list option"

datatype error =
  AccountNotFound jsstring
| ApiError jsstring
| FileError jsstring
| TypeError

text \<open>
  The client of one account: the two fetches the resolver makes and the two submissions
  (raw message and thread id) that end a compose call. A failing call is \<open>Inl\<close>.
\<close>

record gmail =
  threadsGet :: "jsstring \<Rightarrow> error + gmail_thread"
  messagesGet :: "jsstring \<Rightarrow> error + gmail_message"
  draftsCreate :: "jsstring \<Rightarrow> jsstring option \<Rightarrow> error + jsstring"
  messagesSend :: "jsstring \<Rightarrow> jsstring option \<Rightarrow> error + jsstring"

text \<open>The service: the client of each stored account.\<close>

record service =
  accountClient :: "jsstring \<Rightarrow> gmail option"

definition getGmailClient :: "service \<Rightarrow> jsstring \<Rightarrow> error + gmail" where
  "getGmailClient svc email =
     (case accountClient svc email of
        None \<Rightarrow> Inl (AccountNotFound email)
      | Some client \<Rightarrow> Inr client)"

section \<open>GmailService: resolving the message to reply to\<close>

text \<open>The try/catch at the head of \<^verbatim>\<open>getMessageForReply\<close>.\<close>

definition messageIdToFetch :: "gmail \<Rightarrow> jsstring \<Rightarrow> jsstring" where
  "messageIdToFetch client messageOrThreadId =
     (case threadsGet client messageOrThreadId of
        Inl e \<Rightarrow> messageOrThreadId
      | Inr thread \<Rightarrow>
          (case threadMessages thread of
             None \<Rightarrow> messageOrThreadId
           | Some messages \<Rightarrow>
               if length messages > 0 then messages ! (length messages - 1)
               else messageOrThreadId))"

definition getHeader :: "runtime \<Rightarrow> (jsstring \<times> jsstring) list \<Rightarrow> jsstring \<Rightarrow> jsstring" where
  "getHeader rt hs name =
     (case find (\<lambda>h. fst h \<noteq> [] \<and> toLowerCase rt (fst h) = toLowerCase rt name) hs of
        None \<Rightarrow> []
      | Some h \<Rightarrow> snd h)"

text \<open>The first loop of both decoders: a direct child of the wanted type holding data.\<close>

fun directPartData :: "jsstring \<Rightarrow> part list \<Rightarrow> jsstring" where
  "directPartData mime [] = []"
| "directPartData mime (p # ps) =
     (if partMimeType p = mime \<and> partBodyData p \<noteq> [] then partBodyData p
      else directPartData mime ps)"

fun decodeMessageBodyPart :: "runtime \<Rightarrow> part \<Rightarrow> jsstring"
  and decodeMessageBodyNested :: "runtime \<Rightarrow> part list \<Rightarrow> jsstring" where
  "decodeMessageBodyPart rt (Part mime hs bodyData ps) =
     (if bodyData \<noteq> [] then base64urlDecode rt bodyData
      else if directPartData (js ''text/plain'') ps \<noteq> []
      then base64urlDecode rt (directPartData (js ''text/plain'') ps)
      else decodeMessageBodyNested rt ps)"
| "decodeMessageBodyNested rt [] = []"
| "decodeMessageBodyNested rt (p # ps) =
     (let nested = decodeMessageBodyPart rt p in
      if nested \<noteq> [] then nested else decodeMessageBodyNested rt ps)"

definition decodeMessageBody :: "runtime \<Rightarrow> part option \<Rightarrow> jsstring" where
  "decodeMessageBody rt payload =
     (case payload of None \<Rightarrow> [] | Some p \<Rightarrow> decodeMessageBodyPart rt p)"

fun decodeHtmlBodyPart :: "runtime \<Rightarrow> part \<Rightarrow> jsstring"
  and decodeHtmlBodyNested :: "runtime \<Rightarrow> part list \<Rightarrow> jsstring" where
  "decodeHtmlBodyPart rt (Part mime hs bodyData ps) =
     (if bodyData \<noteq> [] \<and> mime = js ''text/html'' then base64urlDecode rt bodyData
      else if directPartData (js ''text/html'') ps \<noteq> []
      then base64urlDecode rt (directPartData (js ''text/html'') ps)
      else decodeHtmlBodyNested rt ps)"
| "decodeHtmlBodyNested rt [] = []"
| "decodeHtmlBodyNested rt (p # ps) =
     (let nested = decodeHtmlBodyPart rt p in
      if nested \<noteq> [] then nested else decodeHtmlBodyNested rt ps)"

definition decodeHtmlBody :: "runtime \<Rightarrow> part option \<Rightarrow> jsstring" where
  "decodeHtmlBody rt payload =
     (case payload of None \<Rightarrow> [] | Some p \<Rightarrow> decodeHtmlBodyPart rt p)"

record reply_data =
  replyMessageId :: jsstring
  replyThreadId :: jsstring
  replyFrom :: jsstring
  replyTo :: "jsstring list"
  replyCc :: "jsstring list"
  replySubject :: jsstring
  replyDate :: jsstring
  replyBody :: jsstring
  replyHtmlBody :: jsstring
  replyInReplyTo :: jsstring
  replyReferences :: jsstring

text \<open>\<^verbatim>\<open>msg.data.payload?.headers || []\<close>\<close>

definition messageHeaders :: "gmail_message \<Rightarrow> (jsstring \<times> jsstring) list" where
  "messageHeaders msg = (case msgPayload msg of None \<Rightarrow> [] | Some p \<Rightarrow> partHeaders p)"

text \<open>What \<^verbatim>\<open>getMessageForReply\<close> builds from the fetched message.\<close>

definition replyDataOf :: "runtime \<Rightarrow> gmail_message \<Rightarrow> reply_data" where
  "replyDataOf rt msg =
     (let hs = messageHeaders msg;
          rfc822MessageId = getHeader rt hs (js ''Message-ID'');
          existingRefs = getHeader rt hs (js ''References'')
      in \<lparr>replyMessageId = msgId msg,
          replyThreadId = msgThreadId msg,
          replyFrom = getHeader rt hs (js ''From''),
          replyTo = parseEmailList (getHeader rt hs (js ''To'')),
          replyCc = parseEmailList (getHeader rt hs (js ''Cc'')),
          replySubject = getHeader rt hs (js ''Subject''),
          replyDate = getHeader rt hs (js ''Date''),
          replyBody = decodeMessageBody rt (msgPayload msg),
          replyHtmlBody = decodeHtmlBody rt (msgPayload msg),
          replyInReplyTo = rfc822MessageId,
          replyReferences =
            (if existingRefs \<noteq> [] then existingRefs @ js '' '' @ rfc822MessageId
             else rfc822MessageId)\<rparr>)"

definition getMessageForReply :: "runtime \<Rightarrow> service \<Rightarrow> jsstring \<Rightarrow> jsstring \<Rightarrow> error + reply_data" where
  "getMessageForReply rt svc email messageOrThreadId =
     (case getGmailClient svc email of
        Inl e \<Rightarrow> Inl e
      | Inr client \<Rightarrow>
          (case messagesGet client (messageIdToFetch client messageOrThreadId) of
             Inl e \<Rightarrow> Inl e
           | Inr msg \<Rightarrow> Inr (replyDataOf rt msg)))"

section \<open>GmailService: composing a draft or a message\<close>

definition mimeTypes :: "(jsstring \<times> jsstring) list" where
  "mimeTypes =
     [(js ''.pdf'', js ''application/pdf''),
      (js ''.doc'', js ''application/msword''),
      (js ''.docx'', js ''application/vnd.openxmlformats-officedocument.wordprocessingml.document''),
      (js ''.xls'', js ''application/vnd.ms-excel''),
      (js ''.xlsx'', js ''application/vnd.openxmlformats-officedocument.spreadsheetml.sheet''),
      (js ''.png'', js ''image/png''),
      (js ''.jpg'', js ''image/jpeg''),
      (js ''.jpeg'', js ''image/jpeg''),
      (js ''.gif'', js ''image/gif''),
      (js ''.txt'', js ''text/plain''),
      (js ''.html'', js ''text/html''),
      (js ''.zip'', js ''application/zip''),
      (js ''.json'', js ''application/json'')]"

definition getMimeType :: "runtime \<Rightarrow> jsstring \<Rightarrow> jsstring" where
  "getMimeType rt filename =
     (let ext = toLowerCase rt (extname rt filename) in
      case map_of mimeTypes ext of
        Some t \<Rightarrow> t
      | None \<Rightarrow> js ''application/octet-stream'')"

text \<open>
  The options object of \<^verbatim>\<open>createDraft\<close> and \<^verbatim>\<open>sendMessage\<close>. Every field is optional;
  the type of \<^verbatim>\<open>sendMessage\<close> has no \<^verbatim>\<open>threadId\<close>, and \<^verbatim>\<open>sendMessage\<close> never reads it.
\<close>

record options =
  optCc :: "jsstring list option"
  optBcc :: "jsstring list option"
  optThreadId :: "jsstring option"
  optReplyToMessageId :: "jsstring option"
  optAttachments :: "jsstring list option"
  optReplyAll :: "bool option"
  optIncludeQuote :: "bool option"

text \<open>
  The variables a compose call assigns before it builds the headers, and the caller's
  options object, which is passed by reference: an assignment to one of its fields is seen
  by the caller. An \<^verbatim>\<open>undefined\<close> \<^verbatim>\<open>inReplyTo\<close> or \<^verbatim>\<open>references\<close> is the empty
  string, the two being tested for truthiness only.
\<close>

record compose_vars =
  recipientList :: "jsstring list option"
  subjectLine :: jsstring
  bodyText :: jsstring
  inReplyTo :: jsstring
  references :: jsstring
  threadId :: "jsstring option"
  replyData :: "reply_data option"
  optionsObject :: options

text \<open>
  The results of \<^verbatim>\<open>Date.now()\<close> and \<^verbatim>\<open>Math.random().toString(36).slice(2)\<close>, as
  text, for the two boundaries.
\<close>

record nonces =
  boundaryNow :: jsstring
  boundaryRandom :: jsstring
  altNow :: jsstring
  altRandom :: jsstring

text \<open>
  \<^verbatim>\<open>!recipientList || recipientList.length === 0 ||
  (recipientList.length === 1 && !recipientList[0])\<close>
\<close>

definition noExplicitRecipients :: "jsstring list option \<Rightarrow> bool" where
  "noExplicitRecipients recipients =
     (case recipients of
        None \<Rightarrow> True
      | Some xs \<Rightarrow> length xs = 0 \<or> (length xs = 1 \<and> xs ! 0 = []))"

text \<open>The body of \<^verbatim>\<open>if (options.replyToMessageId)\<close> after the fetch has returned.\<close>

definition applyReply :: "runtime \<Rightarrow> jsstring \<Rightarrow> reply_data \<Rightarrow> compose_vars \<Rightarrow> compose_vars" where
  "applyReply rt email rd v0 =
     (let v1 =
        (if noExplicitRecipients (recipientList v0) then
           (let senderEmail = addr_email (parseEmailAddress (replyFrom rd));
                v = v0\<lparr>recipientList := Some [senderEmail]\<rparr>
            in if optReplyAll (optionsObject v) = Some True then
                 (let allRecipients = replyTo rd @ replyCc rd;
                      filtered = filterSelfFromRecipients rt allRecipients email;
                      cc = (case optCc (optionsObject v) of None \<Rightarrow> [] | Some c \<Rightarrow> c)
                  in v\<lparr>optionsObject := (optionsObject v)\<lparr>optCc := Some (cc @ filtered)\<rparr>\<rparr>)
               else v)
         else v0);
        v2 =
        (if subjectLine v1 = [] then v1\<lparr>subjectLine := formatReplySubject (replySubject rd)\<rparr>
         else v1);
        v3 =
        (if optIncludeQuote (optionsObject v2) \<noteq> Some False
         then v2\<lparr>bodyText := bodyText v2
                    @ formatGmailQuote rt (replyDate rd) (replyFrom rd) (replyBody rd)\<rparr>
         else v2)
      in v3\<lparr>inReplyTo := replyInReplyTo rd,
            references := replyReferences rd,
            threadId := Some (replyThreadId rd),
            replyData := Some rd\<rparr>)"

definition selectContentType :: "bool \<Rightarrow> bool \<Rightarrow> jsstring \<Rightarrow> jsstring \<Rightarrow> jsstring" where
  \<open>selectContentType hasAttachments hasHtmlQuote boundary altBoundary =
     (if hasAttachments then js ''multipart/mixed; boundary="'' @ boundary @ js ''"''
      else if hasHtmlQuote then js ''multipart/alternative; boundary="'' @ altBoundary @ js ''"''
      else js ''text/plain; charset=UTF-8'')\<close>

text \<open>The \<^verbatim>\<open>headers\<close> array, after \<^verbatim>\<open>filter(Boolean)\<close> has dropped the empty entries.\<close>

definition buildHeaders :: "jsstring \<Rightarrow> jsstring list \<Rightarrow> compose_vars \<Rightarrow> jsstring \<Rightarrow> jsstring list" where
  "buildHeaders email recipients v contentTypeValue =
     filter (\<lambda>h. h \<noteq> [])
       [js ''From: '' @ email,
        js ''To: '' @ joinWith (js '', '') recipients,
        (case optCc (optionsObject v) of
           None \<Rightarrow> []
         | Some cc \<Rightarrow> if length cc \<noteq> 0 then js ''Cc: '' @ joinWith (js '', '') cc else []),
        (case optBcc (optionsObject v) of
           None \<Rightarrow> []
         | Some bcc \<Rightarrow> if length bcc \<noteq> 0 then js ''Bcc: '' @ joinWith (js '', '') bcc else []),
        js ''Subject: '' @ subjectLine v,
        (if inReplyTo v \<noteq> [] then js ''In-Reply-To: '' @ inReplyTo v else []),
        (if references v \<noteq> [] then js ''References: '' @ references v else []),
        js ''MIME-Version: 1.0'',
        js ''Content-Type: '' @ contentTypeValue]"

text \<open>The text and HTML alternatives, nested in the first part of a mixed message.\<close>

definition nestedAlternativePart :: "jsstring \<Rightarrow> jsstring \<Rightarrow> jsstring \<Rightarrow> jsstring \<Rightarrow> jsstring" where
  \<open>nestedAlternativePart boundary altBoundary plainText htmlBody =
     js ''--'' @ boundary @ crlf
     @ js ''Content-Type: multipart/alternative; boundary="'' @ altBoundary @ js ''"'' @ crlf @ crlf
     @ js ''--'' @ altBoundary @ crlf
     @ js ''Content-Type: text/plain; charset=UTF-8'' @ crlf @ crlf
     @ plainText
     @ crlf @ js ''--'' @ altBoundary @ crlf
     @ js ''Content-Type: text/html; charset=UTF-8'' @ crlf @ crlf
     @ htmlBody
     @ crlf @ js ''--'' @ altBoundary @ js ''--''\<close>

definition textPart :: "jsstring \<Rightarrow> jsstring \<Rightarrow> jsstring" where
  "textPart boundary plainText =
     js ''--'' @ boundary @ crlf @ js ''Content-Type: text/plain; charset=UTF-8'' @ crlf @ crlf
     @ plainText"

definition htmlPart :: "jsstring \<Rightarrow> jsstring \<Rightarrow> jsstring" where
  "htmlPart boundary htmlBody =
     js ''--'' @ boundary @ crlf @ js ''Content-Type: text/html; charset=UTF-8'' @ crlf @ crlf
     @ htmlBody"

definition attachmentPart :: "jsstring \<Rightarrow> jsstring \<Rightarrow> jsstring \<Rightarrow> jsstring \<Rightarrow> jsstring" where
  \<open>attachmentPart boundary mimeType filename base64Content =
     js ''--'' @ boundary @ crlf
     @ js ''Content-Type: '' @ mimeType @ crlf
     @ js ''Content-Transfer-Encoding: base64'' @ crlf
     @ js ''Content-Disposition: attachment; filename="'' @ filename @ js ''"'' @ crlf @ crlf
     @ base64Content\<close>

text \<open>The loop over \<^verbatim>\<open>options.attachments\<close>; an unreadable file ends the call.\<close>

fun attachmentParts :: "runtime \<Rightarrow> jsstring \<Rightarrow> jsstring list \<Rightarrow> error + jsstring list" where
  "attachmentParts rt boundary [] = Inr []"
| "attachmentParts rt boundary (filePath # rest) =
     (let filename = basename rt filePath in
      case readFileSync rt filePath of
        None \<Rightarrow> Inl (FileError filePath)
      | Some fileContent \<Rightarrow>
          (let base64Content = toBase64 rt fileContent;
               mimeType = getMimeType rt filename
           in case attachmentParts rt boundary rest of
                Inl e \<Rightarrow> Inl e
              | Inr others \<Rightarrow>
                  Inr (attachmentPart boundary mimeType filename base64Content # others)))"

text \<open>
  What a compose call has built when it reaches the transport: the variables, the content
  type, the header array, the parts array (empty for a flat body) and the raw content.
\<close>

record composed =
  vars :: compose_vars
  contentType :: jsstring
  headers :: "jsstring list"
  parts :: "jsstring list"
  emailContent :: jsstring

text \<open>
  \<^verbatim>\<open>createDraft\<close> and \<^verbatim>\<open>sendMessage\<close> are the same text from their second statement
  to the assignment of \<^verbatim>\<open>emailContent\<close>, but for the initial value of \<^verbatim>\<open>threadId\<close>,
  here \<open>threadId0\<close>. \<open>prepareVars\<close> is that text up to the end of
  \<^verbatim>\<open>if (options.replyToMessageId)\<close>; an empty reply target is falsy.
\<close>

definition prepareVars ::
  "runtime \<Rightarrow> service \<Rightarrow> jsstring option \<Rightarrow> jsstring \<Rightarrow> jsstring list option \<Rightarrow> jsstring \<Rightarrow>
   jsstring \<Rightarrow> options \<Rightarrow> error + compose_vars" where
  "prepareVars rt svc threadId0 email to subject body opts =
     (let v0 = \<lparr>recipientList = to, subjectLine = subject, bodyText = body, inReplyTo = [],
                references = [], threadId = threadId0, replyData = None, optionsObject = opts\<rparr>
      in case optReplyToMessageId opts of
           None \<Rightarrow> Inr v0
         | Some replyToMessageId \<Rightarrow>
             if replyToMessageId = [] then Inr v0
             else (case getMessageForReply rt svc email replyToMessageId of
                     Inl e \<Rightarrow> Inl e
                   | Inr rd \<Rightarrow> Inr (applyReply rt email rd v0)))"

text \<open>\<^verbatim>\<open>options.attachments\<close> as iterated: nothing when the field is absent.\<close>

definition attachmentsOf :: "options \<Rightarrow> jsstring list" where
  "attachmentsOf opts = (case optAttachments opts of None \<Rightarrow> [] | Some a \<Rightarrow> a)"

text \<open>
  \<open>buildMessage\<close> is the rest, from \<^verbatim>\<open>hasAttachments\<close> on. It returns what it built
  together with the options object as the call leaves it. Joining an absent recipient
  list is a TypeError.
\<close>

definition buildMessage ::
  "runtime \<Rightarrow> nonces \<Rightarrow> jsstring \<Rightarrow> jsstring \<Rightarrow> compose_vars \<Rightarrow> (error + composed) \<times> options" where
  "buildMessage rt n email originalBody v =
     (let hasAttachments = (length (attachmentsOf (optionsObject v)) > 0);
          hasHtmlQuote = (replyData v \<noteq> None \<and> optIncludeQuote (optionsObject v) \<noteq> Some False);
          boundary = js ''boundary_'' @ boundaryNow n @ js ''_'' @ boundaryRandom n;
          altBoundary = js ''alt_'' @ altNow n @ js ''_'' @ altRandom n;
          contentTypeValue = selectContentType hasAttachments hasHtmlQuote boundary altBoundary
      in case recipientList v of
           None \<Rightarrow> (Inl TypeError, optionsObject v)
         | Some recipients \<Rightarrow>
            (let headerList = buildHeaders email recipients v contentTypeValue;
                 htmlBody = (case replyData v of
                               None \<Rightarrow> []
                             | Some rd \<Rightarrow> formatHtmlReplyBody rt originalBody (replyDate rd)
                                          (replyFrom rd) (replyBody rd) (replyHtmlBody rd))
             in if hasAttachments then
                  (case attachmentParts rt boundary (attachmentsOf (optionsObject v)) of
                     Inl e \<Rightarrow> (Inl e, optionsObject v)
                   | Inr attached \<Rightarrow>
                      (let partList =
                             (if hasHtmlQuote
                              then nestedAlternativePart boundary altBoundary (bodyText v) htmlBody
                              else textPart boundary (bodyText v)) # attached
                       in (Inr \<lparr>vars = v, contentType = contentTypeValue, headers = headerList,
                                parts = partList,
                                emailContent = joinWith crlf headerList @ crlf @ crlf
                                  @ joinWith crlf partList @ crlf @ js ''--'' @ boundary @ js ''--''\<rparr>,
                           optionsObject v)))
                else if hasHtmlQuote then
                  (let partList = [textPart altBoundary (bodyText v), htmlPart altBoundary htmlBody]
                   in (Inr \<lparr>vars = v, contentType = contentTypeValue, headers = headerList,
                            parts = partList,
                            emailContent = joinWith crlf headerList @ crlf @ crlf
                              @ joinWith crlf partList @ crlf @ js ''--'' @ altBoundary @ js ''--''\<rparr>,
                       optionsObject v))
                else
                  (Inr \<lparr>vars = v, contentType = contentTypeValue, headers = headerList,
                        parts = [],
                        emailContent = joinWith crlf headerList @ crlf @ crlf @ bodyText v\<rparr>,
                   optionsObject v)))"

definition composeEmail ::
  "runtime \<Rightarrow> service \<Rightarrow> nonces \<Rightarrow> jsstring option \<Rightarrow> jsstring \<Rightarrow> jsstring list option \<Rightarrow> jsstring \<Rightarrow>
   jsstring \<Rightarrow> options \<Rightarrow> (error + composed) \<times> options" where
  "composeEmail rt svc n threadId0 email to subject body opts =
     (case prepareVars rt svc threadId0 email to subject body opts of
        Inl e \<Rightarrow> (Inl e, opts)
      | Inr v \<Rightarrow> buildMessage rt n email body v)"

text \<open>
  The two entry points: the client is looked up first, and the raw content goes to the
  transport in base64url with the thread id. The second component of the result is the
  caller's options object after the call.
\<close>

definition createDraft ::
  "runtime \<Rightarrow> service \<Rightarrow> nonces \<Rightarrow> jsstring \<Rightarrow> jsstring list option \<Rightarrow> jsstring \<Rightarrow> jsstring \<Rightarrow>
   options \<Rightarrow> (error + jsstring) \<times> options" where
  "createDraft rt svc n email to subject body opts =
     (case getGmailClient svc email of
        Inl e \<Rightarrow> (Inl e, opts)
      | Inr client \<Rightarrow>
          (case composeEmail rt svc n (optThreadId opts) email to subject body opts of
             (Inl e, opts') \<Rightarrow> (Inl e, opts')
           | (Inr c, opts') \<Rightarrow>
               (draftsCreate client (toBase64url rt (emailContent c)) (threadId (vars c)), opts')))"

definition sendMessage ::
  "runtime \<Rightarrow> service \<Rightarrow> nonces \<Rightarrow> jsstring \<Rightarrow> jsstring list option \<Rightarrow> jsstring \<Rightarrow> jsstring \<Rightarrow>
   options \<Rightarrow> (error + jsstring) \<times> options" where
  "sendMessage rt svc n email to subject body opts =
     (case getGmailClient svc email of
        Inl e \<Rightarrow> (Inl e, opts)
      | Inr client \<Rightarrow>
          (case composeEmail rt svc n None email to subject body opts of
             (Inl e, opts') \<Rightarrow> (Inl e, opts')
           | (Inr c, opts') \<Rightarrow>
               (messagesSend client (toBase64url rt (emailContent c)) (threadId (vars c)), opts')))"

section \<open>Notions the specification uses\<close>

text \<open>
  The number of comma-separated non-empty segments of a header, in the specification's
  words; a segment of white space only is counted as empty.
\<close>

definition nonEmptySegments :: "jsstring \<Rightarrow> nat" where
  "nonEmptySegments header = length (filter (\<lambda>seg. trim seg \<noteq> []) (splitOn 44 header))"

text \<open>
  A trimmed segment has the blank-bracket form when it reads \<^verbatim>\<open>P<B>\<close>, where
  \<^item> \<^verbatim>\<open>B\<close> is one or more white-space characters,
  \<^item> \<^verbatim>\<open>P\<close> is not empty,
  \<^item> \<^verbatim>\<open>P\<close> without its trailing white space contains no line terminator, and
  \<^item> every \<^verbatim>\<open><\<close> of \<^verbatim>\<open>P\<close> after its first character has a \<^verbatim>\<open>>\<close> somewhere to its right in \<^verbatim>\<open>P\<close>.

  The definition reads the text from its end: the final \<^verbatim>\<open>>\<close>, the white space \<^verbatim>\<open>B\<close> before
  it, the \<^verbatim>\<open><\<close> before that, and \<^verbatim>\<open>P\<close> is what remains. Examples: \<^verbatim>\<open>x< >\<close>, \<^verbatim>\<open>Ann <  >\<close> and \<^verbatim>\<open><< >\<close> have the form;
  \<^verbatim>\<open>< >\<close> (empty \<^verbatim>\<open>P\<close>), \<^verbatim>\<open>a<x< >\<close> (an unclosed \<^verbatim>\<open><\<close> in \<^verbatim>\<open>P\<close>) and a text whose \<^verbatim>\<open>P\<close> holds
  a line feed between two letters do not.
\<close>

definition blankBracketForm :: "jsstring \<Rightarrow> bool" where
  "blankBracketForm t =
     (let inner = butlast t;
          blank = takeWhile isWhiteSpace (rev inner);
          front = rev (dropWhile isWhiteSpace (rev inner));
          P = butlast front
      in t \<noteq> [] \<and> last t = 62 \<and> blank \<noteq> [] \<and> front \<noteq> [] \<and> last front = 60 \<and> P \<noteq> [] \<and>
         list_all (\<lambda>c. \<not> isLineTerminator c) (rev (dropWhile isWhiteSpace (rev P))) \<and>
         60 \<notin> set (takeWhile (\<lambda>x. x \<noteq> 62) (rev (tl P))))"

text \<open>
  A compose call has a reply target when \<^verbatim>\<open>options.replyToMessageId\<close> is a non-empty
  string, and includes a quote when it has a reply target and \<^verbatim>\<open>options.includeQuote\<close>
  is not \<^verbatim>\<open>false\<close>.
\<close>

definition hasReplyTarget :: "options \<Rightarrow> bool" where
  "hasReplyTarget opts = (case optReplyToMessageId opts of None \<Rightarrow> False | Some i \<Rightarrow> i \<noteq> [])"

definition quoteIncluded :: "options \<Rightarrow> bool" where
  "quoteIncluded opts = (hasReplyTarget opts \<and> optIncludeQuote opts \<noteq> Some False)"

text \<open>The variables of a compose call as its first statements set them.\<close>

definition initialVars ::
  "jsstring option \<Rightarrow> jsstring list option \<Rightarrow> jsstring \<Rightarrow> jsstring \<Rightarrow> options \<Rightarrow> compose_vars" where
  "initialVars threadId0 to subject body opts =
     \<lparr>recipientList = to, subjectLine = subject, bodyText = body, inReplyTo = [],
      references = [], threadId = threadId0, replyData = None, optionsObject = opts\<rparr>"


text \<open>A part and all the parts below it, depth first.\<close>

fun allParts :: "part \<Rightarrow> part list" where
  "allParts (Part mime hs bodyData ps) = Part mime hs bodyData ps # concat (map allParts ps)"

section \<open>Fixtures for the worked examples\<close>

text \<open>
  A runtime that answers the few calls the examples make as Node answers them (the
  base64url text \<^verbatim>\<open>PGI-\<close> decodes to \<^verbatim>\<open><b>\<close>, \<^verbatim>\<open>aGk\<close> to \<^verbatim>\<open>hi\<close>; the four bytes of
  \<^verbatim>\<open>/tmp/a.pdf\<close> code to \<^verbatim>\<open>JVBERg==\<close>). No example reads the transport coding of the
  whole message, which is left as the identity, nor a date, which is left invalid.
\<close>

definition testRuntime :: runtime where
  "testRuntime =
     \<lparr>unicodeLower = (\<lambda>s. s),
      newDate = (\<lambda>d. None),
      base64urlDecode = (\<lambda>d. if d = js ''PGI-'' then js ''<b>'' else if d = js ''aGk'' then js ''hi'' else []),
      toBase64url = (\<lambda>s. s),
      toBase64 = (\<lambda>bytes. if bytes = [37, 80, 68, 70] then js ''JVBERg=='' else []),
      readFileSync = (\<lambda>path. if path = js ''/tmp/a.pdf'' then Some [37, 80, 68, 70] else None),
      basename = (\<lambda>path. if path = js ''/tmp/a.pdf'' then js ''a.pdf'' else path),
      extname = (\<lambda>path. if path = js ''a.pdf'' then js ''.pdf'' else [])\<rparr>"

text \<open>
  A mailbox with one thread \<^verbatim>\<open>t1\<close> of three messages \<^verbatim>\<open>m1\<close>, \<^verbatim>\<open>m2\<close>, \<^verbatim>\<open>m3\<close>. Every
  message is from Ann to the account \<^verbatim>\<open>me@x.com\<close> and Bob, and has a plain-text body;
  \<^verbatim>\<open>m3\<close> has a Message-ID, \<^verbatim>\<open>m2\<close> has none but has a References header, \<^verbatim>\<open>m1\<close> has
  neither.
\<close>

definition testMessage :: "jsstring \<Rightarrow> gmail_message" where
  "testMessage i =
     \<lparr>msgId = i, msgThreadId = js ''t1'',
      msgPayload = Some (Part (js ''text/plain'')
        ([(js ''From'', js ''Ann <ann@y.org>''), (js ''To'', js ''ME@x.com, bob@z.net''),
          (js ''Subject'', js ''Hello'')]
         @ (if i = js ''m3'' then [(js ''Message-ID'', js ''<3@y.org>'')] else [])
         @ (if i = js ''m2'' then [(js ''References'', js ''<1@y.org>'')] else []))
        (js ''aGk'') [])\<rparr>"

definition testClient :: gmail where
  "testClient =
     \<lparr>threadsGet = (\<lambda>i. if i = js ''t1'' then Inr \<lparr>threadMessages = Some [js ''m1'', js ''m2'', js ''m3'']\<rparr>
                        else Inl (ApiError (js ''Not Found''))),
      messagesGet = (\<lambda>i. if i = js ''m1'' \<or> i = js ''m2'' \<or> i = js ''m3'' then Inr (testMessage i)
                         else Inl (ApiError (js ''Not Found''))),
      draftsCreate = (\<lambda>raw thread. Inr (js ''draft-1'')),
      messagesSend = (\<lambda>raw thread. Inr (js ''sent-1''))\<rparr>"

definition testService :: service where
  "testService = \<lparr>accountClient = (\<lambda>e. if e = js ''me@x.com'' then Some testClient else None)\<rparr>"

definition testNonces :: nonces where
  "testNonces = \<lparr>boundaryNow = js ''1736188200000'', boundaryRandom = js ''k3j9x2'',
                  altNow = js ''1736188200000'', altRandom = js ''p0q8w1''\<rparr>"

definition noOptions :: options where
  "noOptions = \<lparr>optCc = None, optBcc = None, optThreadId = None, optReplyToMessageId = None,
                 optAttachments = None, optReplyAll = None, optIncludeQuote = None\<rparr>"

text \<open>
  The options of a reply to the thread \<^verbatim>\<open>t1\<close> with the quote and one attachment, and of
  a reply to all with a Cc of the caller's own.
\<close>

definition testReplyOptions :: options where
  "testReplyOptions =
     noOptions\<lparr>optReplyToMessageId := Some (js ''t1''), optAttachments := Some [js ''/tmp/a.pdf''],
               optIncludeQuote := Some True\<rparr>"

definition testReplyAllOptions :: options where
  "testReplyAllOptions =
     noOptions\<lparr>optReplyToMessageId := Some (js ''t1''), optReplyAll := Some True,
               optCc := Some [js ''zoe@w.io'']\<rparr>"

text \<open>The options of a reply to the message \<^verbatim>\<open>m2\<close>, and of one to \<^verbatim>\<open>m1\<close>.\<close>

definition testReplyTo :: "jsstring \<Rightarrow> options" where
  "testReplyTo target = noOptions\<lparr>optReplyToMessageId := Some target\<rparr>"


section \<open>String lemmas\<close>

lemma splitOn_nonempty: "splitOn sep s \<noteq> []"
  by (induction s) (auto split: list.splits)

lemma splitOn_no_sep: "x \<in> set (splitOn sep s) \<Longrightarrow> sep \<notin> set x"
  by (induction s arbitrary: x) (auto split: list.splits if_splits)

lemma splitOn_free: "sep \<notin> set x \<Longrightarrow> splitOn sep x = [x]"
  by (induction x) auto

lemma splitOn_append: "sep \<notin> set x \<Longrightarrow> splitOn sep (x @ sep # s) = x # splitOn sep s"
  by (induction x) auto

lemma splitOn_joinWith:
  "xs \<noteq> [] \<Longrightarrow> list_all (\<lambda>x. sep \<notin> set x) xs \<Longrightarrow> splitOn sep (joinWith [sep] xs) = xs"
  by (induction "[sep]" xs rule: joinWith.induct) (auto simp: splitOn_free splitOn_append)

lemma splitOn_snoc_sep: "splitOn sep (s @ [sep]) = splitOn sep s @ [[]]"
  by (induction s) (auto split: list.splits simp: splitOn_nonempty)

lemma quote_prefix_no_nl: "10 \<notin> set line \<Longrightarrow> 10 \<notin> set (js ''> '' @ line)"
  by (simp add: js_def)

text \<open>
  C9: \<^verbatim>\<open>formatQuotedBody\<close> returns the empty string on the empty string; on any other
  body the lines of the result are the lines of the body, each prefixed by \<^verbatim>\<open>"> "\<close>; and
  a body ending in a newline gives a result whose last line is exactly \<^verbatim>\<open>"> "\<close>.
\<close>

theorem formatQuotedBody_lines:
  "formatQuotedBody [] = [] \<and>
   (body \<noteq> [] \<longrightarrow>
      splitOn 10 (formatQuotedBody body) = map (\<lambda>line. js ''> '' @ line) (splitOn 10 body)) \<and>
   last (splitOn 10 (formatQuotedBody (body @ [10]))) = js ''> ''"
proof -
  have all: "list_all (\<lambda>x. 10 \<notin> set x) (map (\<lambda>line. js ''> '' @ line) (splitOn 10 b))" for b
    by (auto simp: list_all_iff js_def dest: splitOn_no_sep)
  have lines: "splitOn 10 (formatQuotedBody b) = map (\<lambda>line. js ''> '' @ line) (splitOn 10 b)"
    if "b \<noteq> []" for b
    using that splitOn_joinWith [OF _ all, of b]
    by (simp add: formatQuotedBody_def nl_def splitOn_nonempty)
  have trailing: "last (splitOn 10 (formatQuotedBody (body @ [10]))) = js ''> ''"
    by (simp add: lines splitOn_snoc_sep last_map splitOn_nonempty)
  have empty: "formatQuotedBody [] = []"
    by (simp add: formatQuotedBody_def)
  from empty lines trailing show ?thesis by blast
qed

text \<open>C9 at the body of the test "preserves trailing newlines" and at a two-line body.\<close>

theorem formatQuotedBody_lines_witness:
  "formatQuotedBody (js ''Line one'' @ nl @ js ''Line two'' @ nl) = js ''> Line one'' @ nl @ js ''> Line two'' @ nl @ js ''> ''
   \<and> splitOn 10 (formatQuotedBody (js ''a'' @ nl @ js ''b'')) = [js ''> a'', js ''> b'']"
  using formatQuotedBody_lines [of "js ''a'' @ nl @ js ''b''"]
  by (simp add: formatQuotedBody_def js_def nl_def)
lemma dropWhile_hd_id: "s = [] \<or> \<not> P (hd s) \<Longrightarrow> dropWhile P s = s"
  by (cases s) auto

lemma trim_ends:
  assumes "trim s \<noteq> []"
  shows "\<not> isWhiteSpace (hd (trim s))" and "\<not> isWhiteSpace (last (trim s))"
proof -
  let ?t = "dropWhile isWhiteSpace s"
  let ?u = "dropWhile isWhiteSpace (rev ?t)"
  from assms have u: "?u \<noteq> []" by (simp add: trim_def)
  have t: "?t \<noteq> []"
  proof
    assume e: "?t = []"
    have "?u = []" unfolding e by (simp only: rev.simps dropWhile.simps)
    with u show False by blast
  qed
  have "last (trim s) = hd ?u" by (simp add: trim_def last_rev)
  with u show "\<not> isWhiteSpace (last (trim s))" by (simp add: hd_dropWhile)
  have "hd (trim s) = last ?u" by (simp add: trim_def hd_rev)
  also have "\<dots> = last (rev ?t)" using u by (metis last_appendR takeWhile_dropWhile_id)
  also have "\<dots> = hd ?t" by (simp add: last_rev)
  finally show "\<not> isWhiteSpace (hd (trim s))" using t by (simp add: hd_dropWhile)
qed

lemma trim_fixed:
  assumes "s \<noteq> []" "\<not> isWhiteSpace (hd s)" "\<not> isWhiteSpace (last s)"
  shows "trim s = s"
proof -
  have 1: "dropWhile isWhiteSpace s = s" using assms by (simp add: dropWhile_hd_id)
  have 2: "dropWhile isWhiteSpace (rev s) = rev s"
    using assms by (intro dropWhile_hd_id) (simp add: hd_rev)
  show ?thesis by (simp add: trim_def 1 2)
qed

lemma trim_idem: "trim (trim s) = trim s"
proof (cases "trim s = []")
  case True
  have "trim [] = []" by (simp add: trim_def)
  with True show ?thesis by simp
next
  case False
  then show ?thesis by (intro trim_fixed trim_ends)
qed

lemma trim_Re_prefix:
  assumes "trim s \<noteq> []"
  shows "trim (js ''Re: '' @ trim s) = js ''Re: '' @ trim s"
proof (rule trim_fixed)
  show "js ''Re: '' @ trim s \<noteq> []" by (simp add: js_def)
  show "\<not> isWhiteSpace (hd (js ''Re: '' @ trim s))" by (simp add: js_def isWhiteSpace_def)
  show "\<not> isWhiteSpace (last (js ''Re: '' @ trim s))" using assms trim_ends(2) by simp
qed

lemma hasRePrefix_Re: "hasRePrefix (js ''Re: '' @ t)"
  by (simp add: hasRePrefix_def js_def)

text \<open>
  C8, amended: \<^verbatim>\<open>formatReplySubject\<close> returns the trimmed subject unchanged when it starts
  with \<^verbatim>\<open>re:\<close> in any letter case, and \<^verbatim>\<open>"Re: "\<close> followed by the trimmed subject
  otherwise; it is idempotent on every subject that is not empty or white space only. On
  such a blank subject the first application gives \<^verbatim>\<open>"Re: "\<close> and the second \<^verbatim>\<open>"Re:"\<close>.
\<close>

theorem formatReplySubject_prefix_idem:
  "(hasRePrefix (trim subject) \<longrightarrow> formatReplySubject subject = trim subject) \<and>
   (\<not> hasRePrefix (trim subject) \<longrightarrow> formatReplySubject subject = js ''Re: '' @ trim subject) \<and>
   (trim subject \<noteq> [] \<longrightarrow>
      formatReplySubject (formatReplySubject subject) = formatReplySubject subject) \<and>
   (trim subject = [] \<longrightarrow>
      formatReplySubject subject = js ''Re: '' \<and>
      formatReplySubject (formatReplySubject subject) = js ''Re:'')"
proof -
  have idem: "formatReplySubject (formatReplySubject subject) = formatReplySubject subject"
    if "trim subject \<noteq> []"
  proof (cases "hasRePrefix (trim subject)")
    case True
    then show ?thesis by (simp add: formatReplySubject_def trim_idem)
  next
    case False
    then show ?thesis
      using that by (simp add: formatReplySubject_def trim_Re_prefix hasRePrefix_Re)
  qed
  have blank: "formatReplySubject subject = js ''Re: '' \<and>
      formatReplySubject (formatReplySubject subject) = js ''Re:''" if "trim subject = []"
  proof -
    have 1: "formatReplySubject subject = js ''Re: ''"
      using that by (simp add: formatReplySubject_def hasRePrefix_def)
    have 2: "formatReplySubject (js ''Re: '') = js ''Re:''"
      by (simp add: formatReplySubject_def hasRePrefix_def trim_def js_def isWhiteSpace_def)
    from 1 2 show ?thesis by simp
  qed
  have pre: "hasRePrefix (trim subject) \<longrightarrow> formatReplySubject subject = trim subject"
    by (simp add: formatReplySubject_def)
  have nopre: "\<not> hasRePrefix (trim subject) \<longrightarrow>
      formatReplySubject subject = js ''Re: '' @ trim subject"
    by (simp add: formatReplySubject_def)
  from pre nopre idem blank show ?thesis by blast
qed

text \<open>C8 at a plain subject, at a subject already prefixed, and at a blank subject.\<close>

theorem formatReplySubject_prefix_idem_witness:
  "(\<not> hasRePrefix (trim (js ''  Meeting  '')) \<and> trim (js ''  Meeting  '') \<noteq> [] \<and>
    formatReplySubject (js ''  Meeting  '') = js ''Re: '' @ trim (js ''  Meeting  '') \<and>
    formatReplySubject (formatReplySubject (js ''  Meeting  '')) = formatReplySubject (js ''  Meeting  '')) \<and>
   (hasRePrefix (trim (js ''rE:x '')) \<and> formatReplySubject (js ''rE:x '') = trim (js ''rE:x '')) \<and>
   (trim (js '' '') = [] \<and> formatReplySubject (formatReplySubject (js '' '')) = js ''Re:'')"
proof -
  have t1: "trim (js ''  Meeting  '') = js ''Meeting''"
    by (simp add: trim_def js_def isWhiteSpace_def)
  have t2: "trim (js ''rE:x '') = js ''rE:x''"
    by (simp add: trim_def js_def isWhiteSpace_def)
  have t3: "trim (js '' '') = []"
    by (simp add: trim_def js_def isWhiteSpace_def)
  have h1: "\<not> hasRePrefix (trim (js ''  Meeting  ''))"
    unfolding t1 by (simp add: hasRePrefix_def js_def)
  have h1': "trim (js ''  Meeting  '') \<noteq> []"
    unfolding t1 by (simp add: js_def)
  have h2: "hasRePrefix (trim (js ''rE:x ''))"
    unfolding t2 by (simp add: hasRePrefix_def js_def)
  show ?thesis
    using h1 h1' h2 t3
      formatReplySubject_prefix_idem [of "js ''  Meeting  ''"]
      formatReplySubject_prefix_idem [of "js ''rE:x ''"]
      formatReplySubject_prefix_idem [of "js '' ''"]
    by blast
qed

text \<open>
  C8 as stated fails at the empty subject: the first application gives \<^verbatim>\<open>"Re: "\<close>, whose
  trimmed form \<^verbatim>\<open>"Re:"\<close> already carries the prefix and is what the second returns.
\<close>

theorem formatReplySubject_not_idempotent:
  "formatReplySubject (formatReplySubject []) \<noteq> formatReplySubject []"
  by (simp add: formatReplySubject_def hasRePrefix_def trim_def js_def isWhiteSpace_def)

lemma trim_Nil: "trim [] = []"
  by (simp add: trim_def)

lemma trim_blank_iff: "trim s = [] \<longleftrightarrow> list_all isWhiteSpace s"
proof
  assume "trim s = []"
  then have "dropWhile isWhiteSpace (rev (dropWhile isWhiteSpace s)) = []"
    by (simp add: trim_def)
  then have "list_all isWhiteSpace (dropWhile isWhiteSpace s)"
    by (simp add: list_all_iff)
  then have "dropWhile isWhiteSpace s = []"
    by (metis dropWhile_eq_Nil_conv hd_dropWhile list.set_sel(1) list_all_iff)
  then show "list_all isWhiteSpace s"
    by (simp add: list_all_iff)
next
  assume "list_all isWhiteSpace s"
  then have e: "dropWhile isWhiteSpace s = []" by (simp add: list_all_iff)
  show "trim s = []" unfolding trim_def e by simp
qed

lemma length_filter_conj_le: "length (filter (\<lambda>x. P x \<and> Q x) xs) \<le> length (filter P xs)"
  by (induction xs) auto

lemma not_ws: "\<not> isWhiteSpace 60" "\<not> isWhiteSpace 62"
  by (simp_all add: isWhiteSpace_def)

lemma lt_ws: "isLineTerminator c \<Longrightarrow> isWhiteSpace c"
  by (auto simp: isLineTerminator_def isWhiteSpace_def)

lemma no_open_after_close:
  fixes xs :: jsstring
  shows "60 \<notin> set (takeWhile (\<lambda>x. x \<noteq> 62) (rev xs)) \<longleftrightarrow> (\<forall>x y. xs = x @ 60 # y \<longrightarrow> 62 \<in> set y)"
proof (induction xs rule: rev_induct)
  case Nil
  then show ?case by simp
next
  case (snoc a xs)
  show ?case
  proof (cases "a = 62")
    case True
    have "62 \<in> set y" if "xs @ [a] = x @ 60 # y" for x y
    proof -
      from that True have "last (x @ 60 # y) = 62" by (metis last_snoc)
      then show ?thesis by (cases y rule: rev_cases) (auto split: if_splits)
    qed
    with True show ?thesis by simp
  next
    case False
    show ?thesis
    proof (cases "a = 60")
      case True
      have "xs @ [a] = xs @ 60 # []" using True by simp
      then have "\<not> (\<forall>x y. xs @ [a] = x @ 60 # y \<longrightarrow> 62 \<in> set y)"
        by (metis empty_iff empty_set)
      with True show ?thesis by simp
    next
      case a60: False
      have "(\<forall>x y. xs @ [a] = x @ 60 # y \<longrightarrow> 62 \<in> set y) \<longleftrightarrow> (\<forall>x y. xs = x @ 60 # y \<longrightarrow> 62 \<in> set y)"
      proof
        assume h: "\<forall>x y. xs @ [a] = x @ 60 # y \<longrightarrow> 62 \<in> set y"
        show "\<forall>x y. xs = x @ 60 # y \<longrightarrow> 62 \<in> set y"
        proof (intro allI impI)
          fix x y assume "xs = x @ 60 # y"
          then have "xs @ [a] = x @ 60 # (y @ [a])" by simp
          with h have "62 \<in> set (y @ [a])" by blast
          with False show "62 \<in> set y" by simp
        qed
      next
        assume h: "\<forall>x y. xs = x @ 60 # y \<longrightarrow> 62 \<in> set y"
        show "\<forall>x y. xs @ [a] = x @ 60 # y \<longrightarrow> 62 \<in> set y"
        proof (intro allI impI)
          fix x y assume e: "xs @ [a] = x @ 60 # y"
          show "62 \<in> set y"
          proof (cases y rule: rev_cases)
            case Nil
            with e a60 show ?thesis by simp
          next
            case (snoc y' b)
            with e have "xs = x @ 60 # y'" by simp
            with h have "62 \<in> set y'" by blast
            with snoc show ?thesis by simp
          qed
        qed
      qed
      with False a60 snoc.IH show ?thesis by simp
    qed
  qed
qed


lemma takeWhile_until: "z \<notin> set b \<Longrightarrow> takeWhile (\<lambda>x. x \<noteq> z) (b @ z # r) = b"
  by (induction b) auto

lemma dropWhile_until: "z \<notin> set b \<Longrightarrow> dropWhile (\<lambda>x. x \<noteq> z) (b @ z # r) = z # r"
  by (induction b) auto

lemma dropWhile_all: "list_all P w \<Longrightarrow> \<not> P z \<Longrightarrow> dropWhile P (w @ z # r) = z # r"
  by (induction w) auto

lemma takeWhile_all: "list_all P w \<Longrightarrow> \<not> P z \<Longrightarrow> takeWhile P (w @ z # r) = w"
  by (induction w) auto

lemma bracketTail_Some_iff:
  "bracketTail r = Some b \<longleftrightarrow> r = 60 # b @ [62] \<and> b \<noteq> [] \<and> 62 \<notin> set b"
proof
  assume h: "bracketTail r = Some b"
  then obtain r' where r: "r = 60 # r'" and tw: "takeWhile (\<lambda>x. x \<noteq> 62) r' \<noteq> []"
    and dw: "dropWhile (\<lambda>x. x \<noteq> 62) r' = [62]" and b: "b = takeWhile (\<lambda>x. x \<noteq> 62) r'"
    by (auto simp: bracketTail_def split: list.splits if_splits)
  have "r' = takeWhile (\<lambda>x. x \<noteq> 62) r' @ dropWhile (\<lambda>x. x \<noteq> 62) r'" by simp
  then have "r' = b @ [62]" using b dw by simp
  moreover have "62 \<notin> set b" unfolding b by (auto dest: set_takeWhileD)
  ultimately show "r = 60 # b @ [62] \<and> b \<noteq> [] \<and> 62 \<notin> set b" using r tw b by simp
next
  assume h: "r = 60 # b @ [62] \<and> b \<noteq> [] \<and> 62 \<notin> set b"
  then have tw: "takeWhile (\<lambda>x. x \<noteq> 62) (b @ [62]) = b"
    by (simp add: takeWhile_until)
  from h have dw: "dropWhile (\<lambda>x. x \<noteq> 62) (b @ [62]) = [62]"
    by (simp add: dropWhile_until)
  from h tw dw show "bracketTail r = Some b" by (simp add: bracketTail_def)
qed

lemma nameEmailMatch_sound:
  "nameEmailMatch pre cs = Some (a, b) \<Longrightarrow>
     \<exists>u w. cs = u @ w @ 60 # b @ [62] \<and> u \<noteq> [] \<and> a = pre @ u \<and>
        list_all (\<lambda>c. \<not> isLineTerminator c) u \<and> list_all isWhiteSpace w \<and> b \<noteq> [] \<and> 62 \<notin> set b \<and>
        (\<forall>u1 u2. u = u1 @ u2 \<and> u1 \<noteq> [] \<and> u2 \<noteq> [] \<longrightarrow>
           bracketTail (dropWhile isWhiteSpace (u2 @ w @ 60 # b @ [62])) = None)"
proof (induction cs arbitrary: pre)
  case Nil
  then show ?case by simp
next
  case (Cons c cs)
  from Cons.prems have nlt: "\<not> isLineTerminator c" by (auto split: if_splits)
  show ?case
  proof (cases "bracketTail (dropWhile isWhiteSpace cs)")
    case (Some b')
    with Cons.prems nlt have ab: "a = pre @ [c]" "b = b'" by auto
    from Some ab have dw: "dropWhile isWhiteSpace cs = 60 # b @ [62]" and b: "b \<noteq> []" "62 \<notin> set b"
      by (simp_all add: bracketTail_Some_iff)
    have "cs = takeWhile isWhiteSpace cs @ dropWhile isWhiteSpace cs" by simp
    then have cs: "c # cs = [c] @ takeWhile isWhiteSpace cs @ 60 # b @ [62]" using dw by simp
    have ws: "list_all isWhiteSpace (takeWhile isWhiteSpace cs)"
      by (auto simp: list_all_iff dest: set_takeWhileD)
    have split: "\<forall>u1 u2. [c] = u1 @ u2 \<and> u1 \<noteq> [] \<and> u2 \<noteq> [] \<longrightarrow>
           bracketTail (dropWhile isWhiteSpace (u2 @ takeWhile isWhiteSpace cs @ 60 # b @ [62])) = None"
      by (auto simp: Cons_eq_append_conv)
    show ?thesis
      by (rule exI [of _ "[c]"], rule exI [of _ "takeWhile isWhiteSpace cs"])
         (use cs ab nlt ws b split in simp)
  next
    case None
    with Cons.prems nlt have rec: "nameEmailMatch (pre @ [c]) cs = Some (a, b)" by simp
    from Cons.IH [OF rec] obtain u w where
      cs: "cs = u @ w @ 60 # b @ [62]" and u: "u \<noteq> []" and a: "a = (pre @ [c]) @ u"
      and lt: "list_all (\<lambda>c. \<not> isLineTerminator c) u" and ws: "list_all isWhiteSpace w"
      and b: "b \<noteq> []" "62 \<notin> set b"
      and mn: "\<forall>u1 u2. u = u1 @ u2 \<and> u1 \<noteq> [] \<and> u2 \<noteq> [] \<longrightarrow>
           bracketTail (dropWhile isWhiteSpace (u2 @ w @ 60 # b @ [62])) = None"
      by blast
    have mn': "bracketTail (dropWhile isWhiteSpace (u2 @ w @ 60 # b @ [62])) = None"
      if "c # u = u1 @ u2" "u1 \<noteq> []" "u2 \<noteq> []" for u1 u2
    proof (cases "tl u1 = []")
      case True
      with that have "u2 = u" by (cases u1) auto
      with None cs show ?thesis by simp
    next
      case False
      with that have "u = tl u1 @ u2" by (cases u1) auto
      with mn False that show ?thesis by blast
    qed
    show ?thesis
      by (rule exI [of _ "c # u"], rule exI [of _ w])
         (use cs a nlt lt ws b mn' in simp)
  qed
qed

lemma nameEmailMatch_complete:
  assumes "u \<noteq> []" "list_all (\<lambda>c. \<not> isLineTerminator c) u" "list_all isWhiteSpace w"
    "b \<noteq> []" "62 \<notin> set b"
    and "\<forall>u1 u2. u = u1 @ u2 \<and> u1 \<noteq> [] \<and> u2 \<noteq> [] \<longrightarrow>
           bracketTail (dropWhile isWhiteSpace (u2 @ w @ 60 # b @ [62])) = None"
  shows "nameEmailMatch pre (u @ w @ 60 # b @ [62]) = Some (pre @ u, b)"
  using assms
proof (induction u arbitrary: pre)
  case Nil
  then show ?case by simp
next
  case (Cons c u)
  from Cons.prems have nlt: "\<not> isLineTerminator c" by simp
  show ?case
  proof (cases "u = []")
    case True
    from Cons.prems(3) have dw: "dropWhile isWhiteSpace (w @ 60 # b @ [62]) = 60 # b @ [62]"
      by (simp add: dropWhile_all not_ws)
    have "bracketTail (60 # b @ [62]) = Some b"
      using Cons.prems(4,5) by (simp add: bracketTail_Some_iff)
    with True nlt dw show ?thesis by simp
  next
    case False
    have none: "bracketTail (dropWhile isWhiteSpace (u @ w @ 60 # b @ [62])) = None"
      using Cons.prems(6) False by (metis append_Cons append_Nil not_Cons_self2)
    have mn: "\<forall>u1 u2. u = u1 @ u2 \<and> u1 \<noteq> [] \<and> u2 \<noteq> [] \<longrightarrow>
           bracketTail (dropWhile isWhiteSpace (u2 @ w @ 60 # b @ [62])) = None"
      using Cons.prems(6) by (metis append_Cons list.distinct(1))
    from Cons.prems have lt: "list_all (\<lambda>c. \<not> isLineTerminator c) u" by simp
    have "nameEmailMatch (pre @ [c]) (u @ w @ 60 # b @ [62]) = Some ((pre @ [c]) @ u, b)"
      by (rule Cons.IH [OF False lt Cons.prems(3,4,5) mn])
    with nlt none show ?thesis by simp
  qed
qed


lemma blankBracketForm_iff:
  "blankBracketForm t \<longleftrightarrow>
     (\<exists>P B. t = P @ 60 # B @ [62] \<and> P \<noteq> [] \<and> B \<noteq> [] \<and> list_all isWhiteSpace B \<and>
        list_all (\<lambda>c. \<not> isLineTerminator c) (rev (dropWhile isWhiteSpace (rev P))) \<and>
        60 \<notin> set (takeWhile (\<lambda>x. x \<noteq> 62) (rev (tl P))))"
proof
  assume f: "blankBracketForm t"
  let ?inner = "butlast t"
  let ?blank = "takeWhile isWhiteSpace (rev ?inner)"
  let ?front = "rev (dropWhile isWhiteSpace (rev ?inner))"
  let ?name = "butlast ?front"
  from f have t: "t \<noteq> []" "last t = 62" and bl: "?blank \<noteq> []" and fr: "?front \<noteq> []" "last ?front = 60"
    and nm: "?name \<noteq> []"
    and c1: "list_all (\<lambda>c. \<not> isLineTerminator c) (rev (dropWhile isWhiteSpace (rev ?name)))"
    and c2: "60 \<notin> set (takeWhile (\<lambda>x. x \<noteq> 62) (rev (tl ?name)))"
    by (simp_all add: blankBracketForm_def Let_def)
  from t have t': "t = ?inner @ [62]" by (metis append_butlast_last_id)
  from fr have front: "?front = ?name @ [60]" by (metis append_butlast_last_id)
  have "rev ?inner = ?blank @ dropWhile isWhiteSpace (rev ?inner)" by simp
  then have "?inner = ?front @ rev ?blank" by (metis rev_append rev_rev_ident)
  then have inner: "?inner = ?name @ 60 # rev ?blank" using front by simp
  have ws: "list_all isWhiteSpace (rev ?blank)"
    by (auto simp: list_all_iff dest: set_takeWhileD)
  have "t = ?name @ 60 # rev ?blank @ [62]" using t' inner by (metis append.assoc append_Cons)
  with nm bl ws c1 c2 show "\<exists>P B. t = P @ 60 # B @ [62] \<and> P \<noteq> [] \<and> B \<noteq> [] \<and> list_all isWhiteSpace B \<and>
        list_all (\<lambda>c. \<not> isLineTerminator c) (rev (dropWhile isWhiteSpace (rev P))) \<and>
        60 \<notin> set (takeWhile (\<lambda>x. x \<noteq> 62) (rev (tl P)))"
    by (intro exI [of _ ?name] exI [of _ "rev ?blank"]) simp
next
  assume "\<exists>P B. t = P @ 60 # B @ [62] \<and> P \<noteq> [] \<and> B \<noteq> [] \<and> list_all isWhiteSpace B \<and>
        list_all (\<lambda>c. \<not> isLineTerminator c) (rev (dropWhile isWhiteSpace (rev P))) \<and>
        60 \<notin> set (takeWhile (\<lambda>x. x \<noteq> 62) (rev (tl P)))"
  then obtain P B where t: "t = P @ 60 # B @ [62]" and P: "P \<noteq> []" and B: "B \<noteq> []" "list_all isWhiteSpace B"
    and c1: "list_all (\<lambda>c. \<not> isLineTerminator c) (rev (dropWhile isWhiteSpace (rev P)))"
    and c2: "60 \<notin> set (takeWhile (\<lambda>x. x \<noteq> 62) (rev (tl P)))"
    by blast
  have inner: "butlast t = P @ 60 # B" unfolding t by (simp add: butlast_append)
  have rinner: "rev (butlast t) = rev B @ 60 # rev P" unfolding inner by simp
  have wsB: "list_all isWhiteSpace (rev B)" using B(2) by (simp add: list_all_iff)
  have blank: "takeWhile isWhiteSpace (rev (butlast t)) = rev B"
    unfolding rinner by (rule takeWhile_all [OF wsB not_ws(1)])
  have dw: "dropWhile isWhiteSpace (rev (butlast t)) = 60 # rev P"
    unfolding rinner by (rule dropWhile_all [OF wsB not_ws(1)])
  have front: "rev (dropWhile isWhiteSpace (rev (butlast t))) = P @ [60]"
    unfolding dw by simp
  have lastt: "last t = 62" "t \<noteq> []" unfolding t by simp_all
  show "blankBracketForm t"
    unfolding blankBracketForm_def Let_def blank front
    using lastt P B c1 c2 by simp
qed


lemma dropWhile_skip: "list_all P w \<Longrightarrow> dropWhile P (w @ r) = dropWhile P r"
  by (induction w) auto

lemma dropWhile_keep: "\<not> list_all P u \<Longrightarrow> dropWhile P (u @ r) = dropWhile P u @ r"
  by (induction u) auto

lemma rstrip_parts:
  fixes P :: jsstring
  defines "u \<equiv> rev (dropWhile isWhiteSpace (rev P))" and "w \<equiv> rev (takeWhile isWhiteSpace (rev P))"
  shows "P = u @ w" "list_all isWhiteSpace w" "u \<noteq> [] \<Longrightarrow> \<not> isWhiteSpace (last u)"
proof -
  have "rev P = takeWhile isWhiteSpace (rev P) @ dropWhile isWhiteSpace (rev P)" by simp
  then show "P = u @ w" unfolding u_def w_def by (metis rev_append rev_rev_ident)
  show "list_all isWhiteSpace w"
    unfolding w_def by (auto simp: list_all_iff dest: set_takeWhileD)
  show "\<not> isWhiteSpace (last u)" if "u \<noteq> []"
  proof -
    from that have ne: "dropWhile isWhiteSpace (rev P) \<noteq> []" unfolding u_def by simp
    have "last u = hd (dropWhile isWhiteSpace (rev P))" unfolding u_def using ne by (simp add: last_rev)
    with ne show ?thesis by (simp add: hd_dropWhile)
  qed
qed

lemma tl_of_cons: "xs = c # ys \<Longrightarrow> tl xs = ys"
  by simp

lemma blank_match_form:
  assumes m: "nameEmailMatch [] t = Some (a, b)" and blank: "list_all isWhiteSpace b"
  shows "blankBracketForm t"
proof -
  from nameEmailMatch_sound [OF m] obtain u w where
    t: "t = u @ w @ 60 # b @ [62]" and u: "u \<noteq> []"
    and lt: "list_all (\<lambda>c. \<not> isLineTerminator c) u" and ws: "list_all isWhiteSpace w"
    and b: "b \<noteq> []" "62 \<notin> set b"
    and mn: "\<forall>u1 u2. u = u1 @ u2 \<and> u1 \<noteq> [] \<and> u2 \<noteq> [] \<longrightarrow>
           bracketTail (dropWhile isWhiteSpace (u2 @ w @ 60 # b @ [62])) = None"
    by blast
  let ?P = "u @ w"
  have c1: "list_all (\<lambda>c. \<not> isLineTerminator c) (rev (dropWhile isWhiteSpace (rev ?P)))"
  proof -
    have "dropWhile isWhiteSpace (rev ?P) = dropWhile isWhiteSpace (rev u)"
      using ws by (simp add: dropWhile_skip list_all_iff)
    moreover have "set (dropWhile isWhiteSpace (rev u)) \<subseteq> set u"
      by (auto dest: set_dropWhileD)
    ultimately show ?thesis using lt by (auto simp: list_all_iff)
  qed
  have c2: "\<forall>x y. tl ?P = x @ 60 # y \<longrightarrow> 62 \<in> set y"
  proof (intro allI impI, rule ccontr)
    fix x y assume e: "tl ?P = x @ 60 # y" and n: "62 \<notin> set y"
    from u obtain c u' where cu: "u = c # u'" by (cases u) auto
    with e have e': "u' @ w = x @ 60 # y" by simp
    have "60 \<notin> set w" using ws not_ws(1) by (auto simp: list_all_iff)
    with e' obtain y' where y': "u' = x @ 60 # y'" "y = y' @ w"
      by (auto simp: append_eq_append_conv2 append_eq_Cons_conv Cons_eq_append_conv)
    have "u = (c # x) @ (60 # y')" using cu y' by simp
    with mn have none: "bracketTail (dropWhile isWhiteSpace ((60 # y') @ w @ 60 # b @ [62])) = None"
      by blast
    have "bracketTail (60 # (y' @ w @ 60 # b) @ [62]) = Some (y' @ w @ 60 # b)"
      using n y' b by (simp add: bracketTail_Some_iff)
    with none show False by (simp add: not_ws)
  qed
  have "t = ?P @ 60 # b @ [62]" using t by simp
  with u b blank c1 c2 show ?thesis
    unfolding blankBracketForm_iff no_open_after_close by blast
qed

lemma form_blank_match:
  assumes f: "blankBracketForm t" and hd: "\<not> isWhiteSpace (hd t)"
  shows "\<exists>a b. nameEmailMatch [] t = Some (a, b) \<and> list_all isWhiteSpace b"
proof -
  from f obtain P B where t: "t = P @ 60 # B @ [62]" and P: "P \<noteq> []" and B: "B \<noteq> []" "list_all isWhiteSpace B"
    and c1: "list_all (\<lambda>c. \<not> isLineTerminator c) (rev (dropWhile isWhiteSpace (rev P)))"
    and c2: "\<forall>x y. tl P = x @ 60 # y \<longrightarrow> 62 \<in> set y"
    unfolding blankBracketForm_iff no_open_after_close by blast
  let ?u = "rev (dropWhile isWhiteSpace (rev P))"
  let ?w = "rev (takeWhile isWhiteSpace (rev P))"
  note parts = rstrip_parts [of P]
  have hdP: "\<not> isWhiteSpace (hd P)" using hd t P by (cases P) auto
  have u: "?u \<noteq> []"
  proof
    assume "?u = []"
    then have "list_all isWhiteSpace (rev P)" by (simp add: list_all_iff)
    then have "isWhiteSpace (hd P)" using P by (cases P) (auto simp: list_all_iff)
    with hdP show False by blast
  qed
  have lastu: "\<not> isWhiteSpace (last ?u)" using parts(3) u by blast
  have b62: "62 \<notin> set B" using B(2) not_ws(2) by (auto simp: list_all_iff)
  have w62: "62 \<notin> set ?w" using parts(2) not_ws(2) by (auto simp: list_all_iff)
  have mn: "\<forall>u1 u2. ?u = u1 @ u2 \<and> u1 \<noteq> [] \<and> u2 \<noteq> [] \<longrightarrow>
           bracketTail (dropWhile isWhiteSpace (u2 @ ?w @ 60 # B @ [62])) = None"
  proof (intro allI impI)
    fix u1 u2 assume s: "?u = u1 @ u2 \<and> u1 \<noteq> [] \<and> u2 \<noteq> []"
    then have "last u2 = last ?u" by simp
    with lastu s have nall: "\<not> list_all isWhiteSpace u2"
      by (metis last_in_set list_all_iff)
    have dw: "dropWhile isWhiteSpace (u2 @ ?w @ 60 # B @ [62])
        = dropWhile isWhiteSpace u2 @ ?w @ 60 # B @ [62]"
      by (rule dropWhile_keep [OF nall])
    show "bracketTail (dropWhile isWhiteSpace (u2 @ ?w @ 60 # B @ [62])) = None"
    proof (rule ccontr)
      assume "bracketTail (dropWhile isWhiteSpace (u2 @ ?w @ 60 # B @ [62])) \<noteq> None"
      then obtain b' where "bracketTail (dropWhile isWhiteSpace u2 @ ?w @ 60 # B @ [62]) = Some b'"
        unfolding dw by blast
      then have e: "dropWhile isWhiteSpace u2 @ ?w @ 60 # B @ [62] = 60 # b' @ [62]"
        and b': "62 \<notin> set b'"
        by (simp_all add: bracketTail_Some_iff)
      from nall have "dropWhile isWhiteSpace u2 \<noteq> []" by (simp add: list_all_iff)
      with e obtain y' where y': "dropWhile isWhiteSpace u2 = 60 # y'"
        by (cases "dropWhile isWhiteSpace u2") auto
      with e have "(y' @ ?w @ 60 # B) @ [62] = b' @ [62]" by simp
      then have "b' = y' @ ?w @ 60 # B" by (simp only: append_same_eq)
      with b' have n: "62 \<notin> set y'" by simp
      have u2: "u2 = takeWhile isWhiteSpace u2 @ 60 # y'" using y' by (metis takeWhile_dropWhile_id)
      from s obtain c u1' where u1: "u1 = c # u1'" by (cases u1) auto
      have "P = u1 @ takeWhile isWhiteSpace u2 @ 60 # y' @ ?w"
        using parts(1) s u2 by (metis append.assoc append_Cons)
      then have "P = c # ((u1' @ takeWhile isWhiteSpace u2) @ 60 # (y' @ ?w))"
        unfolding u1 by (simp only: append_Cons append.assoc)
      then have "tl P = (u1' @ takeWhile isWhiteSpace u2) @ 60 # (y' @ ?w)"
        by (rule tl_of_cons)
      with c2 have "62 \<in> set (y' @ ?w)" by blast
      with n w62 show False by simp
    qed
  qed
  have "nameEmailMatch [] (?u @ ?w @ 60 # B @ [62]) = Some ([] @ ?u, B)"
    by (rule nameEmailMatch_complete [OF u c1 parts(2) B(1) b62 mn])
  moreover have "t = ?u @ ?w @ 60 # B @ [62]" using t parts(1) by (metis append.assoc)
  ultimately show ?thesis using B(2) by auto
qed

lemma email_nonempty_iff:
  "addr_email (parseEmailAddress (trim seg)) \<noteq> [] \<longleftrightarrow>
     trim seg \<noteq> [] \<and> \<not> blankBracketForm (trim seg)"
proof (cases "trim seg = []")
  case True
  then show ?thesis by (simp add: parseEmailAddress_def trim_Nil)
next
  case False
  then have hd: "\<not> isWhiteSpace (hd (trim seg))" by (rule trim_ends(1))
  show ?thesis
  proof (cases "nameEmailMatch [] (trim seg)")
    case None
    have "\<not> blankBracketForm (trim seg)"
      using form_blank_match [OF _ hd] None by auto
    with None False show ?thesis by (simp add: parseEmailAddress_def trim_idem)
  next
    case (Some m)
    obtain a b where m: "m = (a, b)" by (cases m)
    have e: "addr_email (parseEmailAddress (trim seg)) = trim b"
      using Some m by (simp add: parseEmailAddress_def trim_idem)
    have "blankBracketForm (trim seg) \<longleftrightarrow> list_all isWhiteSpace b"
    proof
      assume "blankBracketForm (trim seg)"
      from form_blank_match [OF this hd] Some m show "list_all isWhiteSpace b" by auto
    next
      assume "list_all isWhiteSpace b"
      with Some m show "blankBracketForm (trim seg)" by (auto intro: blank_match_form)
    qed
    with e False show ?thesis by (simp add: trim_blank_iff)
  qed
qed

lemma parseEmailList_blank: "trim header = [] \<Longrightarrow> parseEmailList header = []"
  by (simp add: parseEmailList_def)

lemma blank_no_comma: "trim header = [] \<Longrightarrow> splitOn 44 header = [header]"
proof -
  assume "trim header = []"
  then have "list_all isWhiteSpace header" by (simp add: trim_blank_iff)
  then have "44 \<notin> set header" by (auto simp: list_all_iff isWhiteSpace_def)
  then show ?thesis by (rule splitOn_free)
qed

lemma parseEmailList_filter:
  "parseEmailList header =
     filter (\<lambda>e. e \<noteq> []) (map (\<lambda>entry. addr_email (parseEmailAddress (trim entry))) (splitOn 44 header))"
proof (cases "trim header = []")
  case True
  then have "addr_email (parseEmailAddress (trim header)) = []"
    using email_nonempty_iff [of header] by simp
  with True show ?thesis
    by (simp add: parseEmailList_blank blank_no_comma)
next
  case False
  then have "header \<noteq> []" using trim_Nil by auto
  with False show ?thesis by (simp add: parseEmailList_def)
qed

text \<open>
  The blank-bracket form, spelled out: the text is \<^verbatim>\<open>P<B>\<close> with \<^verbatim>\<open>B\<close> white space only and not
  empty, \<^verbatim>\<open>P\<close> not empty and free of line terminators once its trailing white space is removed,
  and every \<^verbatim>\<open><\<close> after the first character of \<^verbatim>\<open>P\<close> followed by a \<^verbatim>\<open>>\<close> within \<^verbatim>\<open>P\<close>.
\<close>

lemma blankBracketForm_shape:
  "blankBracketForm t \<longleftrightarrow>
     (\<exists>P B. t = P @ 60 # B @ [62] \<and> P \<noteq> [] \<and> B \<noteq> [] \<and> list_all isWhiteSpace B \<and>
        list_all (\<lambda>c. \<not> isLineTerminator c) (rev (dropWhile isWhiteSpace (rev P))) \<and>
        (\<forall>x y. tl P = x @ 60 # y \<longrightarrow> 62 \<in> set y))"
  unfolding blankBracketForm_iff no_open_after_close ..

text \<open>
  The form and the parser on seven texts; the sixth has a line feed between \<^verbatim>\<open>a\<close> and
  \<^verbatim>\<open>b\<close>. The parser returns no address exactly on the three texts that have the form.
\<close>

lemma blankBracketForm_examples:
  "blankBracketForm (js ''x< >'')"
  "blankBracketForm (js ''Ann <  >'')"
  "blankBracketForm (js ''<< >'')"
  "\<not> blankBracketForm (js ''< >'')"
  "\<not> blankBracketForm (js ''a<x< >'')"
  "\<not> blankBracketForm [97, 10, 98, 32, 60, 32, 62]"
  "\<not> blankBracketForm (js ''Bob <b@y.org>'')"
  by (simp_all add: blankBracketForm_def Let_def js_def isWhiteSpace_def isLineTerminator_def)

lemma parseEmailList_examples:
  "parseEmailList (js ''x< >'') = []"
  "parseEmailList (js ''Ann <  >'') = []"
  "parseEmailList (js ''<< >'') = []"
  "parseEmailList (js ''< >'') = [js ''< >'']"
  "parseEmailList (js ''a<x< >'') = [js ''x<'']"
  "parseEmailList [97, 10, 98, 32, 60, 32, 62] = [[97, 10, 98, 32, 60, 32, 62]]"
  "parseEmailList (js ''Bob <b@y.org>'') = [js ''b@y.org'']"
  by (simp_all add: parseEmailList_def parseEmailAddress_def bracketTail_def trim_def js_def
      isWhiteSpace_def isLineTerminator_def)

text \<open>
  C7, amended: the length of \<^verbatim>\<open>parseEmailList(header)\<close> is the number of comma-separated
  segments whose trimmed text is not empty and does not have the blank-bracket form
  \<^verbatim>\<open>P<B>\<close> (\<^verbatim>\<open>B\<close> one or more white-space characters; \<^verbatim>\<open>P\<close> not empty, without a line terminator
  before its trailing white space, and with every \<^verbatim>\<open><\<close> after its first character followed by a
  later \<^verbatim>\<open>>\<close> in \<^verbatim>\<open>P\<close>). It never exceeds the number of non-blank segments, equals it when no
  trimmed segment has that form, and is zero on a blank header.
\<close>

theorem parseEmailList_length:
  "length (parseEmailList header) =
     length (filter (\<lambda>seg. trim seg \<noteq> [] \<and> \<not> blankBracketForm (trim seg)) (splitOn 44 header)) \<and>
   length (parseEmailList header) \<le> nonEmptySegments header \<and>
   (list_all (\<lambda>seg. \<not> blankBracketForm (trim seg)) (splitOn 44 header) \<longrightarrow>
      length (parseEmailList header) = nonEmptySegments header) \<and>
   (trim header = [] \<longrightarrow> parseEmailList header = [])"
proof -
  have 1: "length (parseEmailList header) =
     length (filter (\<lambda>seg. trim seg \<noteq> [] \<and> \<not> blankBracketForm (trim seg)) (splitOn 44 header))"
    by (simp add: parseEmailList_filter filter_map o_def email_nonempty_iff)
  have 2: "length (parseEmailList header) \<le> nonEmptySegments header"
    unfolding 1 nonEmptySegments_def
    by (rule length_filter_conj_le)
  have 3: "length (parseEmailList header) = nonEmptySegments header"
    if "list_all (\<lambda>seg. \<not> blankBracketForm (trim seg)) (splitOn 44 header)"
  proof -
    from that have "filter (\<lambda>seg. trim seg \<noteq> [] \<and> \<not> blankBracketForm (trim seg)) (splitOn 44 header)
        = filter (\<lambda>seg. trim seg \<noteq> []) (splitOn 44 header)"
      by (intro filter_cong) (auto simp: list_all_iff)
    then show ?thesis by (simp add: 1 nonEmptySegments_def)
  qed
  from 1 2 3 parseEmailList_blank show ?thesis by blast
qed

text \<open>
  C7 as stated fails at the header \<^verbatim>\<open>x< >\<close>: one non-empty segment, and an empty result.
\<close>

theorem parseEmailList_length_counterexample:
  "parseEmailList (js ''x< >'') = [] \<and> nonEmptySegments (js ''x< >'') = 1 \<and>
   length (filter (\<lambda>seg. seg \<noteq> []) (splitOn 44 (js ''x< >''))) = 1"
  by (simp add: parseEmailList_def parseEmailAddress_def nonEmptySegments_def bracketTail_def
      trim_def js_def isWhiteSpace_def isLineTerminator_def)

text \<open>
  C7 at a two-address header, at a header of three spaces, and at a header whose first segment
  has the blank-bracket form.
\<close>

theorem parseEmailList_length_witness:
  "list_all (\<lambda>seg. \<not> blankBracketForm (trim seg)) (splitOn 44 (js ''a@x.com, Bob <b@y.org>'')) \<and>
   length (parseEmailList (js ''a@x.com, Bob <b@y.org>'')) = nonEmptySegments (js ''a@x.com, Bob <b@y.org>'') \<and>
   nonEmptySegments (js ''a@x.com, Bob <b@y.org>'') = 2 \<and>
   trim (js ''   '') = [] \<and> parseEmailList (js ''   '') = [] \<and>
   filter (\<lambda>seg. trim seg \<noteq> [] \<and> \<not> blankBracketForm (trim seg)) (splitOn 44 (js ''Ann < >, b@y.org''))
     = [js '' b@y.org''] \<and>
   length (parseEmailList (js ''Ann < >, b@y.org'')) = 1"
proof -
  have h1: "list_all (\<lambda>seg. \<not> blankBracketForm (trim seg)) (splitOn 44 (js ''a@x.com, Bob <b@y.org>''))"
    by (simp add: blankBracketForm_def Let_def trim_def js_def isWhiteSpace_def
        isLineTerminator_def)
  have h2: "trim (js ''   '') = []"
    by (simp add: trim_def js_def isWhiteSpace_def)
  have n: "nonEmptySegments (js ''a@x.com, Bob <b@y.org>'') = 2"
    by (simp add: nonEmptySegments_def trim_def js_def isWhiteSpace_def)
  have f: "filter (\<lambda>seg. trim seg \<noteq> [] \<and> \<not> blankBracketForm (trim seg)) (splitOn 44 (js ''Ann < >, b@y.org''))
     = [js '' b@y.org'']"
    by (simp add: blankBracketForm_def Let_def trim_def js_def isWhiteSpace_def
        isLineTerminator_def)
  show ?thesis
    using h1 h2 n f parseEmailList_length [of "js ''a@x.com, Bob <b@y.org>''"]
      parseEmailList_length [of "js ''   ''"] parseEmailList_length [of "js ''Ann < >, b@y.org''"]
    by simp
qed


section \<open>The reply resolver\<close>

text \<open>
  C1: \<^verbatim>\<open>getMessageForReply\<close> first fetches the identifier as a thread. When that succeeds
  and the thread has messages, the message fetched is the last of the thread in stored order
  (the third of three); when the thread fetch fails, the identifier itself is the message id
  fetched. The reply data are built from the message fetched under that id.
\<close>

theorem getMessageForReply_thread_first:
  "(threadsGet client ident = Inr thread \<and> threadMessages thread = Some messages \<and> messages \<noteq> []
      \<longrightarrow> messageIdToFetch client ident = last messages) \<and>
   (threadsGet client ident = Inr thread \<and> threadMessages thread = Some [first, second, third]
      \<longrightarrow> messageIdToFetch client ident = third) \<and>
   (threadsGet client ident = Inl e \<longrightarrow> messageIdToFetch client ident = ident) \<and>
   (accountClient svc email = Some client \<longrightarrow>
      getMessageForReply rt svc email ident =
        (case messagesGet client (messageIdToFetch client ident) of
           Inl e' \<Rightarrow> Inl e'
         | Inr msg \<Rightarrow> Inr (replyDataOf rt msg)))"
  by (simp add: messageIdToFetch_def getMessageForReply_def getGmailClient_def last_conv_nth)

lemma testClient_simps:
  "threadsGet testClient = (\<lambda>i. if i = js ''t1'' then Inr \<lparr>threadMessages = Some [js ''m1'', js ''m2'', js ''m3'']\<rparr>
                        else Inl (ApiError (js ''Not Found'')))"
  "messagesGet testClient = (\<lambda>i. if i = js ''m1'' \<or> i = js ''m2'' \<or> i = js ''m3'' then Inr (testMessage i)
                         else Inl (ApiError (js ''Not Found'')))"
  by (simp_all add: testClient_def)

text \<open>
  C1 on the test mailbox: the thread id \<^verbatim>\<open>t1\<close> resolves to its third message \<^verbatim>\<open>m3\<close>,
  and \<^verbatim>\<open>m2\<close>, which is no thread, to itself.
\<close>

theorem getMessageForReply_thread_first_witness:
  "threadsGet testClient (js ''t1'') = Inr \<lparr>threadMessages = Some [js ''m1'', js ''m2'', js ''m3'']\<rparr> \<and>
   messageIdToFetch testClient (js ''t1'') = js ''m3'' \<and>
   threadsGet testClient (js ''m2'') = Inl (ApiError (js ''Not Found'')) \<and>
   messageIdToFetch testClient (js ''m2'') = js ''m2'' \<and>
   accountClient testService (js ''me@x.com'') = Some testClient \<and>
   getMessageForReply testRuntime testService (js ''me@x.com'') (js ''t1'')
     = Inr (replyDataOf testRuntime (testMessage (js ''m3'')))"
proof -
  have h1: "threadsGet testClient (js ''t1'') = Inr \<lparr>threadMessages = Some [js ''m1'', js ''m2'', js ''m3'']\<rparr>"
    by (simp add: testClient_simps)
  have h2: "threadsGet testClient (js ''m2'') = Inl (ApiError (js ''Not Found''))"
    by (simp add: testClient_simps js_def)
  have h3: "accountClient testService (js ''me@x.com'') = Some testClient"
    by (simp add: testService_def)
  have m3: "messagesGet testClient (js ''m3'') = Inr (testMessage (js ''m3''))"
    by (simp add: testClient_simps)
  note t1 = getMessageForReply_thread_first
      [of testClient "js ''t1''" "\<lparr>threadMessages = Some [js ''m1'', js ''m2'', js ''m3'']\<rparr>"
          "[js ''m1'', js ''m2'', js ''m3'']" "js ''m1''" "js ''m2''" "js ''m3''"
          "ApiError (js ''Not Found'')" testService "js ''me@x.com''" testRuntime]
  note t2 = getMessageForReply_thread_first
      [of testClient "js ''m2''" _ _ _ _ _ "ApiError (js ''Not Found'')"]
  have r1: "messageIdToFetch testClient (js ''t1'') = js ''m3''"
    using t1 h1 by simp
  have r2: "messageIdToFetch testClient (js ''m2'') = js ''m2''"
    using t2 h2 by simp
  have r3: "getMessageForReply testRuntime testService (js ''me@x.com'') (js ''t1'')
     = Inr (replyDataOf testRuntime (testMessage (js ''m3'')))"
    using t1 h3 r1 m3 by simp
  from h1 h2 h3 r1 r2 r3 show ?thesis by blast
qed

lemma directPartData_find:
  "directPartData mime ps =
     (case find (\<lambda>p. partMimeType p = mime \<and> partBodyData p \<noteq> []) ps of
        None \<Rightarrow> [] | Some p \<Rightarrow> partBodyData p)"
  by (induction ps) auto

lemma directPartData_empty_iff:
  "directPartData mime ps = [] \<longleftrightarrow> \<not> list_ex (\<lambda>p. partMimeType p = mime \<and> partBodyData p \<noteq> []) ps"
  by (induction ps) auto

lemma decodeMessageBodyNested_find:
  "decodeMessageBodyNested rt ps =
     (case find (\<lambda>s. s \<noteq> []) (map (decodeMessageBodyPart rt) ps) of None \<Rightarrow> [] | Some s \<Rightarrow> s)"
  by (induction ps) (auto simp: Let_def)

lemma decodeHtmlBodyNested_find:
  "decodeHtmlBodyNested rt ps =
     (case find (\<lambda>s. s \<noteq> []) (map (decodeHtmlBodyPart rt) ps) of None \<Rightarrow> [] | Some s \<Rightarrow> s)"
  by (induction ps) (auto simp: Let_def)

lemma decodeHtmlBody_none:
  "\<not> list_ex (\<lambda>q. partMimeType q = js ''text/html'' \<and> partBodyData q \<noteq> []) (allParts p)
     \<Longrightarrow> decodeHtmlBodyPart rt p = []"
  "\<not> list_ex (\<lambda>q. partMimeType q = js ''text/html'' \<and> partBodyData q \<noteq> []) (concat (map allParts ps))
     \<Longrightarrow> decodeHtmlBodyNested rt ps = []"
proof (induction rt p and rt ps rule: decodeHtmlBodyPart_decodeHtmlBodyNested.induct)
  case (1 rt mime hs bodyData ps)
  have direct: "directPartData (js ''text/html'') ps = []"
  proof -
    have "\<not> list_ex (\<lambda>p. partMimeType p = js ''text/html'' \<and> partBodyData p \<noteq> []) ps"
    proof
      assume "list_ex (\<lambda>p. partMimeType p = js ''text/html'' \<and> partBodyData p \<noteq> []) ps"
      then obtain q where q: "q \<in> set ps" "partMimeType q = js ''text/html''" "partBodyData q \<noteq> []"
        by (auto simp: list_ex_iff)
      have "q \<in> set (allParts q)" by (cases q) simp
      with q "1.prems" show False by (auto simp: list_ex_iff)
    qed
    then show ?thesis by (simp add: directPartData_empty_iff)
  qed
  from "1.prems" have own: "\<not> (bodyData \<noteq> [] \<and> mime = js ''text/html'')"
    by auto
  from "1.prems" have "decodeHtmlBodyNested rt ps = []"
    by (intro "1.IH") (use own direct in auto)
  with own direct show ?case by auto
next
  case (2 rt)
  then show ?case by simp
next
  case (3 rt p ps)
  then show ?case by (auto simp: Let_def)
qed

lemma directPartData_cases:
  "find (\<lambda>p. partMimeType p = mime \<and> partBodyData p \<noteq> []) ps = None
     \<Longrightarrow> directPartData mime ps = []"
  "find (\<lambda>p. partMimeType p = mime \<and> partBodyData p \<noteq> []) ps = Some q
     \<Longrightarrow> directPartData mime ps = partBodyData q \<and> partBodyData q \<noteq> []"
  by (induction ps) (auto split: if_splits)

text \<open>
  C5, amended: the plain-text extraction returns the decoded data of the payload itself when
  it has any, whatever its declared type; otherwise the decoded data of the first direct child
  declared \<^verbatim>\<open>text/plain\<close> that has data; otherwise the first non-empty result of extracting
  from the children in order, and the empty string when there is none. The HTML extraction is
  the same walk with \<^verbatim>\<open>text/html\<close>, except that the payload's own data are taken only
  when it is declared \<^verbatim>\<open>text/html\<close>; it is empty when no part of the tree is declared
  \<^verbatim>\<open>text/html\<close> with data. Both are empty on an absent payload.
\<close>

theorem decodeBody_walk:
  "decodeMessageBodyPart rt (Part mime hs bodyData ps) =
     (if bodyData \<noteq> [] then base64urlDecode rt bodyData
      else case find (\<lambda>p. partMimeType p = js ''text/plain'' \<and> partBodyData p \<noteq> []) ps of
             Some p \<Rightarrow> base64urlDecode rt (partBodyData p)
           | None \<Rightarrow>
               (case find (\<lambda>s. s \<noteq> []) (map (decodeMessageBodyPart rt) ps) of
                  None \<Rightarrow> [] | Some s \<Rightarrow> s)) \<and>
   decodeHtmlBodyPart rt (Part mime hs bodyData ps) =
     (if bodyData \<noteq> [] \<and> mime = js ''text/html'' then base64urlDecode rt bodyData
      else case find (\<lambda>p. partMimeType p = js ''text/html'' \<and> partBodyData p \<noteq> []) ps of
             Some p \<Rightarrow> base64urlDecode rt (partBodyData p)
           | None \<Rightarrow>
               (case find (\<lambda>s. s \<noteq> []) (map (decodeHtmlBodyPart rt) ps) of
                  None \<Rightarrow> [] | Some s \<Rightarrow> s)) \<and>
   (\<not> list_ex (\<lambda>q. partMimeType q = js ''text/html'' \<and> partBodyData q \<noteq> []) (allParts p)
      \<longrightarrow> decodeHtmlBody rt (Some p) = []) \<and>
   decodeMessageBody rt (Some p) = decodeMessageBodyPart rt p \<and>
   decodeHtmlBody rt (Some p) = decodeHtmlBodyPart rt p \<and>
   decodeMessageBody rt None = [] \<and> decodeHtmlBody rt None = []"
proof -
  have plain: "decodeMessageBodyPart rt (Part mime hs bodyData ps) =
     (if bodyData \<noteq> [] then base64urlDecode rt bodyData
      else case find (\<lambda>p. partMimeType p = js ''text/plain'' \<and> partBodyData p \<noteq> []) ps of
             Some p \<Rightarrow> base64urlDecode rt (partBodyData p)
           | None \<Rightarrow>
               (case find (\<lambda>s. s \<noteq> []) (map (decodeMessageBodyPart rt) ps) of
                  None \<Rightarrow> [] | Some s \<Rightarrow> s))"
  proof (cases "find (\<lambda>p. partMimeType p = js ''text/plain'' \<and> partBodyData p \<noteq> []) ps")
    case None
    then show ?thesis
      by (simp add: directPartData_cases(1) decodeMessageBodyNested_find)
  next
    case (Some q)
    then show ?thesis
      using directPartData_cases(2) [OF Some] by simp
  qed
  have html: "decodeHtmlBodyPart rt (Part mime hs bodyData ps) =
     (if bodyData \<noteq> [] \<and> mime = js ''text/html'' then base64urlDecode rt bodyData
      else case find (\<lambda>p. partMimeType p = js ''text/html'' \<and> partBodyData p \<noteq> []) ps of
             Some p \<Rightarrow> base64urlDecode rt (partBodyData p)
           | None \<Rightarrow>
               (case find (\<lambda>s. s \<noteq> []) (map (decodeHtmlBodyPart rt) ps) of
                  None \<Rightarrow> [] | Some s \<Rightarrow> s))"
  proof (cases "find (\<lambda>p. partMimeType p = js ''text/html'' \<and> partBodyData p \<noteq> []) ps")
    case None
    then show ?thesis
      by (simp add: directPartData_cases(1) decodeHtmlBodyNested_find)
  next
    case (Some q)
    then show ?thesis
      using directPartData_cases(2) [OF Some] by simp
  qed
  have none: "\<not> list_ex (\<lambda>q. partMimeType q = js ''text/html'' \<and> partBodyData q \<noteq> []) (allParts p)
      \<longrightarrow> decodeHtmlBody rt (Some p) = []"
    by (simp add: decodeHtmlBody_def decodeHtmlBody_none(1))
  have rest: "decodeMessageBody rt (Some p) = decodeMessageBodyPart rt p"
    "decodeHtmlBody rt (Some p) = decodeHtmlBodyPart rt p"
    "decodeMessageBody rt None = []" "decodeHtmlBody rt None = []"
    by (simp_all add: decodeMessageBody_def decodeHtmlBody_def)
  from plain html none rest show ?thesis by blast
qed

lemma testRuntime_decode:
  "base64urlDecode testRuntime =
     (\<lambda>d. if d = js ''PGI-'' then js ''<b>'' else if d = js ''aGk'' then js ''hi'' else [])"
  by (simp add: testRuntime_def)

text \<open>C5 on a mixed message whose only child is a plain-text part.\<close>

theorem decodeBody_walk_witness:
  "\<not> list_ex (\<lambda>q. partMimeType q = js ''text/html'' \<and> partBodyData q \<noteq> [])
       (allParts (Part (js ''multipart/mixed'') [] [] [Part (js ''text/plain'') [] (js ''aGk'') []])) \<and>
   decodeHtmlBody testRuntime
     (Some (Part (js ''multipart/mixed'') [] [] [Part (js ''text/plain'') [] (js ''aGk'') []])) = [] \<and>
   decodeMessageBody testRuntime
     (Some (Part (js ''multipart/mixed'') [] [] [Part (js ''text/plain'') [] (js ''aGk'') []])) = js ''hi''"
proof -
  let ?leaf = "Part (js ''text/plain'') [] (js ''aGk'') []"
  let ?p = "Part (js ''multipart/mixed'') [] [] [?leaf]"
  have h: "\<not> list_ex (\<lambda>q. partMimeType q = js ''text/html'' \<and> partBodyData q \<noteq> []) (allParts ?p)"
    by (simp add: js_def)
  note w = decodeBody_walk [of testRuntime "js ''multipart/mixed''" "[]" "[]" "[?leaf]" ?p]
  have 1: "decodeHtmlBody testRuntime (Some ?p) = []"
    using w h by blast
  have 2: "decodeMessageBody testRuntime (Some ?p) = js ''hi''"
    by (simp add: decodeMessageBody_def testRuntime_decode js_def)
  from h 1 2 show ?thesis by blast
qed

text \<open>
  C5 as stated fails on a message that is a single \<^verbatim>\<open>text/html\<close> part: no part is declared
  \<^verbatim>\<open>text/plain\<close>, and the plain-text extraction returns the HTML. It also fails on a mixed
  message whose first child is an HTML part and whose second holds a \<^verbatim>\<open>text/plain\<close> part:
  the recursion returns the HTML of the first child.
\<close>

theorem decodeMessageBody_other_type_counterexample:
  "\<not> list_ex (\<lambda>q. partMimeType q = js ''text/plain'')
       (allParts (Part (js ''text/html'') [] (js ''PGI-'') [])) \<and>
   decodeMessageBody testRuntime (Some (Part (js ''text/html'') [] (js ''PGI-'') [])) = js ''<b>'' \<and>
   decodeMessageBody testRuntime
     (Some (Part (js ''multipart/mixed'') [] []
        [Part (js ''text/html'') [] (js ''PGI-'') [],
         Part (js ''multipart/alternative'') [] [] [Part (js ''text/plain'') [] (js ''aGk'') []]]))
     = js ''<b>''"
  by (simp add: decodeMessageBody_def testRuntime_decode js_def)

section \<open>Composition\<close>

lemma applyReply_fields:
  "recipientList (applyReply rt email rd v0) =
     (if noExplicitRecipients (recipientList v0)
      then Some [addr_email (parseEmailAddress (replyFrom rd))] else recipientList v0)"
  "subjectLine (applyReply rt email rd v0) =
     (if subjectLine v0 = [] then formatReplySubject (replySubject rd) else subjectLine v0)"
  "bodyText (applyReply rt email rd v0) =
     (if optIncludeQuote (optionsObject v0) \<noteq> Some False
      then bodyText v0 @ formatGmailQuote rt (replyDate rd) (replyFrom rd) (replyBody rd)
      else bodyText v0)"
  "inReplyTo (applyReply rt email rd v0) = replyInReplyTo rd"
  "references (applyReply rt email rd v0) = replyReferences rd"
  "threadId (applyReply rt email rd v0) = Some (replyThreadId rd)"
  "replyData (applyReply rt email rd v0) = Some rd"
  "optionsObject (applyReply rt email rd v0) =
     (if noExplicitRecipients (recipientList v0) \<and> optReplyAll (optionsObject v0) = Some True
      then (optionsObject v0)\<lparr>optCc :=
             Some ((case optCc (optionsObject v0) of None \<Rightarrow> [] | Some c \<Rightarrow> c)
                   @ filterSelfFromRecipients rt (replyTo rd @ replyCc rd) email)\<rparr>
      else optionsObject v0)"
  by (simp_all add: applyReply_def Let_def)

lemma attachmentParts_readable:
  "list_all (\<lambda>p. readFileSync rt p \<noteq> None) files \<Longrightarrow>
   attachmentParts rt boundary files =
     Inr (map (\<lambda>p. attachmentPart boundary (getMimeType rt (basename rt p)) (basename rt p)
                    (toBase64 rt (the (readFileSync rt p)))) files)"
  by (induction files) (auto simp: Let_def)





lemma prepareVars_no_reply:
  "\<not> hasReplyTarget opts \<Longrightarrow>
   prepareVars rt svc threadId0 email to subject body opts
     = Inr (initialVars threadId0 to subject body opts)"
  by (auto simp: prepareVars_def hasReplyTarget_def initialVars_def split: option.splits)

lemma prepareVars_reply:
  "optReplyToMessageId opts = Some target \<Longrightarrow> target \<noteq> [] \<Longrightarrow>
   prepareVars rt svc threadId0 email to subject body opts
     = (case getMessageForReply rt svc email target of
          Inl e \<Rightarrow> Inl e
        | Inr rd \<Rightarrow> Inr (applyReply rt email rd (initialVars threadId0 to subject body opts)))"
  by (simp add: prepareVars_def initialVars_def split: sum.splits)

lemma prepareVars_cases:
  assumes "prepareVars rt svc threadId0 email to subject body opts = Inr v"
  obtains (plain) "\<not> hasReplyTarget opts" "v = initialVars threadId0 to subject body opts"
  | (reply) target rd where "optReplyToMessageId opts = Some target" "target \<noteq> []"
      "getMessageForReply rt svc email target = Inr rd"
      "v = applyReply rt email rd (initialVars threadId0 to subject body opts)"
proof (cases "hasReplyTarget opts")
  case False
  with assms prepareVars_no_reply [OF False] plain show ?thesis by simp
next
  case True
  then obtain target where t: "optReplyToMessageId opts = Some target" "target \<noteq> []"
    by (auto simp: hasReplyTarget_def split: option.splits)
  with assms obtain rd where "getMessageForReply rt svc email target = Inr rd"
      "v = applyReply rt email rd (initialVars threadId0 to subject body opts)"
    by (auto simp: prepareVars_reply split: sum.splits)
  with t reply show ?thesis by blast
qed

lemma initialVars_fields:
  "recipientList (initialVars threadId0 to subject body opts) = to"
  "subjectLine (initialVars threadId0 to subject body opts) = subject"
  "bodyText (initialVars threadId0 to subject body opts) = body"
  "inReplyTo (initialVars threadId0 to subject body opts) = []"
  "references (initialVars threadId0 to subject body opts) = []"
  "threadId (initialVars threadId0 to subject body opts) = threadId0"
  "replyData (initialVars threadId0 to subject body opts) = None"
  "optionsObject (initialVars threadId0 to subject body opts) = opts"
  by (simp_all add: initialVars_def)

lemma prepareVars_frame:
  assumes "prepareVars rt svc threadId0 email to subject body opts = Inr v"
  shows "attachmentsOf (optionsObject v) = attachmentsOf opts"
    and "optIncludeQuote (optionsObject v) = optIncludeQuote opts"
    and "optBcc (optionsObject v) = optBcc opts"
    and "optReplyToMessageId (optionsObject v) = optReplyToMessageId opts"
    and "optThreadId (optionsObject v) = optThreadId opts"
    and "optReplyAll (optionsObject v) = optReplyAll opts"
    and "(replyData v \<noteq> None) = hasReplyTarget opts"
  using assms
  by (cases rule: prepareVars_cases;
      simp add: applyReply_fields initialVars_fields attachmentsOf_def hasReplyTarget_def)+

lemma createDraft_glue:
  "accountClient svc email = Some client \<Longrightarrow>
   composeEmail rt svc n (optThreadId opts) email to subject body opts = (Inr c, opts') \<Longrightarrow>
   createDraft rt svc n email to subject body opts
     = (draftsCreate client (toBase64url rt (emailContent c)) (threadId (vars c)), opts')"
  by (simp add: createDraft_def getGmailClient_def)

lemma sendMessage_glue:
  "accountClient svc email = Some client \<Longrightarrow>
   composeEmail rt svc n None email to subject body opts = (Inr c, opts') \<Longrightarrow>
   sendMessage rt svc n email to subject body opts
     = (messagesSend client (toBase64url rt (emailContent c)) (threadId (vars c)), opts')"
  by (simp add: sendMessage_def getGmailClient_def)

lemma composeEmail_buildMessage:
  "prepareVars rt svc threadId0 email to subject body opts = Inr v \<Longrightarrow>
   composeEmail rt svc n threadId0 email to subject body opts = buildMessage rt n email body v"
  by (simp add: composeEmail_def)






lemma applyReply_recipients:
  "\<exists>rs. recipientList (applyReply rt email rd (initialVars threadId0 to subject body opts)) = Some rs"
  by (cases to) (auto simp: applyReply_fields initialVars_fields noExplicitRecipients_def)

lemma composeEmail_headers:
  assumes prep: "prepareVars rt svc threadId0 email to subject body opts = Inr v"
    and rec: "recipientList v = Some recipients"
    and readable: "list_all (\<lambda>p. readFileSync rt p \<noteq> None) (attachmentsOf opts)"
  shows "\<exists>c. composeEmail rt svc n threadId0 email to subject body opts = (Inr c, optionsObject v) \<and>
     vars c = v \<and>
     headers c = buildHeaders email recipients v
       (selectContentType (attachmentsOf opts \<noteq> []) (quoteIncluded opts)
          (js ''boundary_'' @ boundaryNow n @ js ''_'' @ boundaryRandom n)
          (js ''alt_'' @ altNow n @ js ''_'' @ altRandom n))"
proof -
  note frame = prepareVars_frame [OF prep]
  have q: "(replyData v \<noteq> None \<and> optIncludeQuote (optionsObject v) \<noteq> Some False)
             = quoteIncluded opts"
    by (simp only: frame quoteIncluded_def)
  from readable have readable': "list_all (\<lambda>p. readFileSync rt p \<noteq> None) (attachmentsOf (optionsObject v))"
    by (simp only: frame)
  have "\<exists>c. buildMessage rt n email body v = (Inr c, optionsObject v) \<and> vars c = v \<and>
     headers c = buildHeaders email recipients v
       (selectContentType (attachmentsOf (optionsObject v) \<noteq> [])
          (replyData v \<noteq> None \<and> optIncludeQuote (optionsObject v) \<noteq> Some False)
          (js ''boundary_'' @ boundaryNow n @ js ''_'' @ boundaryRandom n)
          (js ''alt_'' @ altNow n @ js ''_'' @ altRandom n))"
    using rec attachmentParts_readable [OF readable']
    by (auto simp: buildMessage_def Let_def split: option.splits)
  then show ?thesis
    unfolding q frame(1) composeEmail_buildMessage [OF prep] .
qed

lemma reply_compose:
  assumes target: "optReplyToMessageId opts = Some target" "target \<noteq> []"
    and fetch: "getMessageForReply rt svc email target = Inr rd"
    and readable: "list_all (\<lambda>p. readFileSync rt p \<noteq> None) (attachmentsOf opts)"
    and v: "v = applyReply rt email rd (initialVars threadId0 to subject body opts)"
  shows "\<exists>c. composeEmail rt svc n threadId0 email to subject body opts = (Inr c, optionsObject v) \<and>
     vars c = v \<and>
     headers c = buildHeaders email (the (recipientList v)) v
       (selectContentType (attachmentsOf opts \<noteq> []) (quoteIncluded opts)
          (js ''boundary_'' @ boundaryNow n @ js ''_'' @ boundaryRandom n)
          (js ''alt_'' @ altNow n @ js ''_'' @ altRandom n))"
proof -
  have prep: "prepareVars rt svc threadId0 email to subject body opts = Inr v"
    using prepareVars_reply [OF target] fetch v by simp
  from applyReply_recipients v obtain rs where rs: "recipientList v = Some rs" by blast
  from composeEmail_headers [OF prep rs readable] rs show ?thesis by simp
qed





lemma getMessageForReply_fetch:
  "accountClient svc email = Some client \<Longrightarrow>
   messagesGet client (messageIdToFetch client target) = Inr msg \<Longrightarrow>
   getMessageForReply rt svc email target = Inr (replyDataOf rt msg)"
  by (simp add: getMessageForReply_def getGmailClient_def)




lemma filterSelf_filter:
  "filterSelfFromRecipients rt recipients selfEmail
     = filter (\<lambda>e. toLowerCase rt e \<noteq> toLowerCase rt selfEmail) recipients"
  by (simp add: filterSelfFromRecipients_def Let_def)



section \<open>Worked examples\<close>

lemma testRuntime_fields:
  "unicodeLower testRuntime = (\<lambda>s. s)"
  "newDate testRuntime = (\<lambda>d. None)"
  "toBase64url testRuntime = (\<lambda>s. s)"
  "toBase64 testRuntime = (\<lambda>bytes. if bytes = [37, 80, 68, 70] then js ''JVBERg=='' else [])"
  "readFileSync testRuntime = (\<lambda>path. if path = js ''/tmp/a.pdf'' then Some [37, 80, 68, 70] else None)"
  "basename testRuntime = (\<lambda>path. if path = js ''/tmp/a.pdf'' then js ''a.pdf'' else path)"
  "extname testRuntime = (\<lambda>path. if path = js ''a.pdf'' then js ''.pdf'' else [])"
  by (simp_all add: testRuntime_def)

lemma test_account: "accountClient testService (js ''me@x.com'') = Some testClient"
  by (simp add: testService_def)

lemma test_resolve:
  "messageIdToFetch testClient (js ''t1'') = js ''m3''"
  "messageIdToFetch testClient (js ''m2'') = js ''m2''"
  "messageIdToFetch testClient (js ''m1'') = js ''m1''"
  by (simp_all add: messageIdToFetch_def testClient_simps js_def)

lemma test_fetch:
  "messagesGet testClient (messageIdToFetch testClient (js ''t1'')) = Inr (testMessage (js ''m3''))"
  "messagesGet testClient (messageIdToFetch testClient (js ''m2'')) = Inr (testMessage (js ''m2''))"
  "messagesGet testClient (messageIdToFetch testClient (js ''m1'')) = Inr (testMessage (js ''m1''))"
  by (simp_all add: test_resolve testClient_simps)

lemma test_getMessageForReply:
  "getMessageForReply testRuntime testService (js ''me@x.com'') (js ''t1'')
     = Inr (replyDataOf testRuntime (testMessage (js ''m3'')))"
  by (rule getMessageForReply_fetch [OF test_account test_fetch(1)])

lemma test_message_headers:
  "messageHeaders (testMessage (js ''m3'')) =
     [(js ''From'', js ''Ann <ann@y.org>''), (js ''To'', js ''ME@x.com, bob@z.net''),
      (js ''Subject'', js ''Hello''), (js ''Message-ID'', js ''<3@y.org>'')]"
  "messageHeaders (testMessage (js ''m2'')) =
     [(js ''From'', js ''Ann <ann@y.org>''), (js ''To'', js ''ME@x.com, bob@z.net''),
      (js ''Subject'', js ''Hello''), (js ''References'', js ''<1@y.org>'')]"
  "messageHeaders (testMessage (js ''m1'')) =
     [(js ''From'', js ''Ann <ann@y.org>''), (js ''To'', js ''ME@x.com, bob@z.net''),
      (js ''Subject'', js ''Hello'')]"
  by (simp_all add: messageHeaders_def testMessage_def js_def)


lemma test_reply_m3:
  "replyDataOf testRuntime (testMessage (js ''m3'')) =
     \<lparr>replyMessageId = js ''m3'', replyThreadId = js ''t1'', replyFrom = js ''Ann <ann@y.org>'',
      replyTo = [js ''ME@x.com'', js ''bob@z.net''], replyCc = [], replySubject = js ''Hello'',
      replyDate = [], replyBody = js ''hi'', replyHtmlBody = [],
      replyInReplyTo = js ''<3@y.org>'', replyReferences = js ''<3@y.org>''\<rparr>"
  unfolding replyDataOf_def test_message_headers
  by (simp add: Let_def getHeader_def testMessage_def
      toLowerCase_def asciiLower_def
      decodeMessageBody_def decodeHtmlBody_def testRuntime_decode
      parseEmailList_def parseEmailAddress_def bracketTail_def trim_def isWhiteSpace_def
      isLineTerminator_def js_def)



lemma test_filter:
  "filterSelfFromRecipients testRuntime [js ''ME@x.com'', js ''bob@z.net''] (js ''me@x.com'')
     = [js ''bob@z.net'']"
  by (simp add: filterSelf_filter toLowerCase_def asciiLower_def js_def)

lemma test_options:
  "optReplyToMessageId (testReplyTo target) = Some target"
  "attachmentsOf (testReplyTo target) = []"
  "optReplyToMessageId testReplyOptions = Some (js ''t1'')"
  "attachmentsOf testReplyOptions = [js ''/tmp/a.pdf'']"
  "quoteIncluded testReplyOptions"
  "optReplyToMessageId testReplyAllOptions = Some (js ''t1'')"
  "attachmentsOf testReplyAllOptions = []"
  "optReplyAll testReplyAllOptions = Some True"
  "optCc testReplyAllOptions = Some [js ''zoe@w.io'']"
  by (simp_all add: testReplyTo_def testReplyOptions_def testReplyAllOptions_def noOptions_def
      attachmentsOf_def quoteIncluded_def hasReplyTarget_def js_def)

lemma test_targets: "js ''t1'' \<noteq> []" "js ''m1'' \<noteq> []" "js ''m2'' \<noteq> []"
  by (simp_all add: js_def)




lemma test_readable:
  "list_all (\<lambda>p. readFileSync testRuntime p \<noteq> None) (attachmentsOf testReplyOptions)"
  "list_all (\<lambda>p. readFileSync testRuntime p \<noteq> None) (attachmentsOf (testReplyTo target))"
  "list_all (\<lambda>p. readFileSync testRuntime p \<noteq> None) (attachmentsOf testReplyAllOptions)"
  by (simp_all add: test_options testRuntime_fields)

lemma test_others:
  "filter (\<lambda>e. toLowerCase testRuntime e \<noteq> toLowerCase testRuntime (js ''me@x.com''))
     (replyTo (replyDataOf testRuntime (testMessage (js ''m3'')))
      @ replyCc (replyDataOf testRuntime (testMessage (js ''m3'')))) = [js ''bob@z.net'']"
  unfolding test_reply_m3 filterSelf_filter [symmetric] by (simp add: test_filter)









lemma entry_options_reply:
  assumes target: "optReplyToMessageId opts = Some target" "target \<noteq> []"
    and client: "accountClient svc email = Some client"
    and fetch: "getMessageForReply rt svc email target = Inr rd"
    and readable: "list_all (\<lambda>p. readFileSync rt p \<noteq> None) (attachmentsOf opts)"
  shows "snd (createDraft rt svc n email to subject body opts)
      = optionsObject (applyReply rt email rd (initialVars (optThreadId opts) to subject body opts))"
    and "snd (sendMessage rt svc n email to subject body opts)
      = optionsObject (applyReply rt email rd (initialVars None to subject body opts))"
proof -
  from reply_compose [OF target fetch readable refl, of n "optThreadId opts" to subject body]
  obtain c where c: "composeEmail rt svc n (optThreadId opts) email to subject body opts
      = (Inr c, optionsObject (applyReply rt email rd
           (initialVars (optThreadId opts) to subject body opts)))"
    by (elim exE conjE)
  show "snd (createDraft rt svc n email to subject body opts)
      = optionsObject (applyReply rt email rd (initialVars (optThreadId opts) to subject body opts))"
    by (simp add: createDraft_glue [OF client c])
  from reply_compose [OF target fetch readable refl, of n None to subject body]
  obtain c' where c': "composeEmail rt svc n None email to subject body opts
      = (Inr c', optionsObject (applyReply rt email rd (initialVars None to subject body opts)))"
    by (elim exE conjE)
  show "snd (sendMessage rt svc n email to subject body opts)
      = optionsObject (applyReply rt email rd (initialVars None to subject body opts))"
    by (simp add: sendMessage_glue [OF client c'])
qed

lemma test_reply_all_options:
  "optionsObject (applyReply testRuntime (js ''me@x.com'')
      (replyDataOf testRuntime (testMessage (js ''m3'')))
      (initialVars t0 (Some []) [] (js ''Thanks'') testReplyAllOptions))
   = testReplyAllOptions\<lparr>optCc := Some [js ''zoe@w.io'', js ''bob@z.net'']\<rparr>"
  by (simp add: applyReply_fields initialVars_fields noExplicitRecipients_def test_options
      filterSelf_filter test_others del: filter_append)

text \<open>
  C4 fails on \<^verbatim>\<open>createDraft("me@x.com", [], "", "Thanks", {replyToMessageId: "t1",
  replyAll: true, cc: ["zoe@w.io"]})\<close> and on the same call of \<^verbatim>\<open>sendMessage\<close>: when the
  call returns, the \<^verbatim>\<open>cc\<close> field of the caller's options object holds the merged list
  instead of the list the caller supplied.
\<close>

theorem compose_writes_options_cc:
  "snd (createDraft testRuntime testService testNonces (js ''me@x.com'') (Some []) []
         (js ''Thanks'') testReplyAllOptions)
     = testReplyAllOptions\<lparr>optCc := Some [js ''zoe@w.io'', js ''bob@z.net'']\<rparr> \<and>
   snd (sendMessage testRuntime testService testNonces (js ''me@x.com'') (Some []) []
         (js ''Thanks'') testReplyAllOptions)
     = testReplyAllOptions\<lparr>optCc := Some [js ''zoe@w.io'', js ''bob@z.net'']\<rparr> \<and>
   optCc testReplyAllOptions = Some [js ''zoe@w.io'']"
  using entry_options_reply [OF test_options(6) test_targets(1) test_account
      test_getMessageForReply test_readable(3), of testNonces "Some []" "[]" "js ''Thanks''"]
  by (simp add: test_reply_all_options test_options(9))







end
